theory Spec2Isabelle
  imports Main "HOL-Library.AList"
begin

section \<open>JavaScript strings\<close>

text \<open>
  Strings are lists of characters. The three \<^verbatim>\<open>String.prototype\<close> methods the place
  scan uses are written out with the index arithmetic of the language standard:
  \<^verbatim>\<open>indexOf\<close> answers \<open>-1\<close> when the character does not occur, and \<^verbatim>\<open>slice\<close>
  counts a negative bound from the end of the string.
\<close>

definition startsWith :: "string \<Rightarrow> string \<Rightarrow> bool" where
  "startsWith text cmd = (take (length cmd) text = cmd)"

fun indexOf :: "string \<Rightarrow> char \<Rightarrow> int" where
  "indexOf [] c = - 1"
| "indexOf (x # xs) c =
     (if x = c then 0 else (let i = indexOf xs c in if i < 0 then - 1 else i + 1))"

definition slice :: "string \<Rightarrow> int \<Rightarrow> int \<Rightarrow> string" where
  "slice s start fin =
     (let len = int (length s);
          lo = (if start < 0 then max (len + start) 0 else min start len);
          hi = (if fin < 0 then max (len + fin) 0 else min fin len)
      in take (nat (hi - lo)) (drop (nat lo) s))"

text \<open>
  \<^verbatim>\<open>String.prototype.trim\<close> removes white space and line terminators from both ends.
  Characters here are 8-bit, so the white space of the standard is restricted to the code
  units below 256: tab, line feed, vertical tab, form feed, carriage return, space and the
  no-break space.
\<close>

definition js_space :: "char \<Rightarrow> bool" where
  "js_space c = (of_char c \<in> {9, 10, 11, 12, 13, 32, 160 :: nat})"

definition trim :: "string \<Rightarrow> string" where
  "trim s = rev (dropWhile js_space (rev (dropWhile js_space s)))"

text \<open>\<^verbatim>\<open>Array.prototype.join\<close> on an array of strings.\<close>

fun join :: "string list \<Rightarrow> string \<Rightarrow> string" where
  "join [] sep = []"
| "join [x] sep = x"
| "join (x # y # ys) sep = x @ sep @ join (y # ys) sep"

section \<open>The document tree\<close>

text \<open>
  Modelled from the spec: the module \<^verbatim>\<open>ast/index.js\<close> (the node type,
  \<^verbatim>\<open>getChildren\<close>, \<^verbatim>\<open>getPropertyValue\<close>, \<^verbatim>\<open>setValueProperty\<close>, \<^verbatim>\<open>hasClass\<close>,
  \<^verbatim>\<open>visitNodes\<close>) is not among the sources. The spec's data model gives a node a name, a
  mapping of properties with unique keys, a set of style classes, and an ordered sequence
  of children or a single literal. Properties are an association list in insertion order;
  the field \<^verbatim>\<open>value\<close> of a node is \<open>literal\<close>, and an absent one is \<open>None\<close>.
\<close>

datatype node =
  Node (name: string) (properties: "(string \<times> string) list") (classes: "string list")
       (children: "node list") (literal: "string option")

text \<open>
  Modelled from the spec: the accessors of \<^verbatim>\<open>ast/index.js\<close>, which is not among the
  sources. \<^verbatim>\<open>getChildren\<close> gives the direct children, \<^verbatim>\<open>getPropertyValue\<close> the value
  stored under a key (\<open>None\<close> for \<^verbatim>\<open>undefined\<close>), \<^verbatim>\<open>hasClass\<close> membership in the style
  classes.
\<close>

definition getChildren :: "node \<Rightarrow> node list" where
  "getChildren ast = children ast"

definition getPropertyValue :: "node \<Rightarrow> string \<Rightarrow> string option" where
  "getPropertyValue n k = map_of (properties n) k"

definition hasClass :: "node \<Rightarrow> string \<Rightarrow> bool" where
  "hasClass n c = (c \<in> set (classes n))"

text \<open>
  Modelled from the spec: \<^verbatim>\<open>setValueProperty\<close> of \<^verbatim>\<open>ast/index.js\<close>, which records a value
  on the node under a key. It mutates the node; in the model a visitor hands back the
  property list the node has after the call, and the traversal rebuilds the node around it.
\<close>

definition setValueProperty :: "(string \<times> string) list \<Rightarrow> string \<Rightarrow> string \<Rightarrow> (string \<times> string) list" where
  "setValueProperty ps k v = AList.update k v ps"

text \<open>
  The asynchronous operations the compilation issues, and what it can throw: a
  \<^verbatim>\<open>TypeError\<close>, the \<^verbatim>\<open>SyntaxError\<close> of \<^verbatim>\<open>JSON.parse\<close>, or the rejection of an
  operation.
\<close>

datatype operation =
    Mkdirp string
  | ReadFile string
  | WriteFile string string
  | Copy string string
  | Pdflatex string string bool

datatype js_error = TypeError | SyntaxError | Rejected operation

text \<open>
  Modelled from the spec: \<^verbatim>\<open>visitNodes\<close> visits every node of the tree. The order is
  document order: a node before its children, the children from first to last. The
  callback receives the node and the state threaded through the traversal; it answers the
  node's new property list and the new state, or throws, which ends the traversal.
\<close>

fun visitNodes :: "(node \<Rightarrow> 's \<Rightarrow> js_error + (string \<times> string) list \<times> 's) \<Rightarrow> node \<Rightarrow> 's
      \<Rightarrow> js_error + node \<times> 's"
  and visitList :: "(node \<Rightarrow> 's \<Rightarrow> js_error + (string \<times> string) list \<times> 's) \<Rightarrow> node list \<Rightarrow> 's
      \<Rightarrow> js_error + node list \<times> 's" where
  "visitNodes f (Node n ps cl cs v) s =
     (case f (Node n ps cl cs v) s of
        Inl e \<Rightarrow> Inl e
      | Inr (ps', s') \<Rightarrow>
          (case visitList f cs s' of
             Inl e \<Rightarrow> Inl e
           | Inr (cs', s'') \<Rightarrow> Inr (Node n ps' cl cs' v, s'')))"
| "visitList f [] s = Inr ([], s)"
| "visitList f (c # cs) s =
     (case visitNodes f c s of
        Inl e \<Rightarrow> Inl e
      | Inr (c', s') \<Rightarrow>
          (case visitList f cs s' of
             Inl e \<Rightarrow> Inl e
           | Inr (cs', s'') \<Rightarrow> Inr (c' # cs', s'')))"

section \<open>The place map\<close>

text \<open>
  The place map is a \<^verbatim>\<open>Map\<close>: keys in insertion order, \<^verbatim>\<open>set\<close> on a present key
  replaces the value where it stands. Its values are the empty string or a figure node.
\<close>

datatype place = Empty | Figure node

type_synonym place_map = "(string \<times> place) list"

definition cmd :: string where
  "cmd = CHR 0x5C # ''place{''"

text \<open>
  The callback of the first traversal. \<^verbatim>\<open>node.children[0].value\<close> throws a
  \<^verbatim>\<open>TypeError\<close> when the node has no first child, and \<^verbatim>\<open>text.startsWith\<close> throws one
  when that child has no literal.
\<close>

definition scan_place :: "node \<Rightarrow> place_map \<Rightarrow> js_error + (string \<times> string) list \<times> place_map" where
  "scan_place node places =
     (if name node \<noteq> ''raw'' \<or> getPropertyValue node ''format'' \<noteq> Some ''tex''
      then Inr (properties node, places)
      else (case children node of
              [] \<Rightarrow> Inl TypeError
            | c # _ \<Rightarrow>
                (case literal c of
                   None \<Rightarrow> Inl TypeError
                 | Some text \<Rightarrow>
                     if startsWith text cmd
                     then (let ident = slice text (int (length cmd)) (indexOf text (CHR ''}''))
                           in Inr (setValueProperty (properties node) ''place'' ident,
                                   AList.update ident Empty places))
                     else Inr (properties node, places))))"

text \<open>The callback of the second traversal; it changes no node.\<close>

definition scan_figure :: "node \<Rightarrow> place_map \<Rightarrow> js_error + (string \<times> string) list \<times> place_map" where
  "scan_figure node places =
     (if name node = ''figure''
      then (case getPropertyValue node ''id'' of
              None \<Rightarrow> Inr (properties node, places)
            | Some ident \<Rightarrow>
                if ident \<noteq> [] \<and> ident \<in> fst ` set places
                then Inr (properties node, AList.update ident (Figure node) places)
                else Inr (properties node, places))
      else Inr (properties node, places))"

text \<open>
  \<^verbatim>\<open>places(ast)\<close>: the tree as the first traversal leaves it, and the map. A figure node
  is stored by reference, so the map shows it in the state it has when \<^verbatim>\<open>places\<close>
  returns, with the \<^verbatim>\<open>place\<close> properties of the directives below it already set.
\<close>

definition places :: "node \<Rightarrow> js_error + node \<times> place_map" where
  "places ast =
     (case visitNodes scan_place ast [] of
        Inl e \<Rightarrow> Inl e
      | Inr (ast', m) \<Rightarrow>
          if m \<noteq> [] then visitNodes scan_figure ast' m else Inr (ast', m))"


section \<open>The world outside the module\<close>

text \<open>
  The history of a run: every operation issued, with its outcome (\<open>True\<close> when the promise
  fulfils), and every call of the logger.
\<close>

datatype event =
    Did operation bool
  | LogDebug string
  | LogError string js_error

type_synonym trace = "event list"

text \<open>The formatter: the methods of a \<^verbatim>\<open>TexFormat\<close> object that the module calls.\<close>

record formatter =
  tex_tree :: "node \<Rightarrow> string"
  tex_field :: "string option \<Rightarrow> string option"
  tex_string :: "string \<Rightarrow> string"
  tex_vspace :: "string \<Rightarrow> string"
  tex_fragment :: "node \<Rightarrow> string"
  tex_label :: "node \<Rightarrow> string \<Rightarrow> string"

text \<open>The argument of the \<^verbatim>\<open>TexFormat\<close> constructor.\<close>

record tex_config =
  cfg_references :: "string list option"
  cfg_prefix :: "(string \<times> string) list"
  cfg_classes :: "(string \<times> string) list"
  cfg_places :: place_map
  cfg_vspace :: "(string \<times> string) list"

record author =
  author_name :: string
  affiliation :: "string option"

record metadata =
  meta_title :: "string option"
  meta_title_short :: "string option"
  meta_author :: "author list option"
  meta_author_short :: "string option"
  meta_date :: "string option"
  meta_keywords :: "string list option"

record citations =
  cite_references :: "string list option"
  cite_bibtex :: "string list option"

record run_context =
  citations :: "citations option"
  metadata :: metadata
  inputDir :: string
  inputFile :: string
  outputDir :: string
  tempDir :: string

text \<open>The options; \<open>None\<close> is an absent key, which takes the default of the destructuring.\<close>

record options =
  template :: "string option"
  tags :: "(string \<times> string) option"
  pdf :: "bool option"
  latexDir :: "string option"
  vspace :: "(string \<times> string) list option"

text \<open>
  The object handed to the template engine. Its key \<^verbatim>\<open>keywords\<close> is the field
  \<open>keyword_line\<close>; the blocks the special sections add are the last three fields and
  \<open>preamble\<close>.
\<close>

record data =
  date :: string
  title :: string
  author :: "author list"
  author_first :: "author option"
  author_rest :: "author list"
  author_names :: string
  title_short :: "string option"
  author_short :: "string option"
  bibtex :: "string option"
  keyword_line :: "string option"
  preamble :: string
  content :: string
  abstract :: "string option"
  acknowledgments :: "string option"
  teaser :: "string option"

text \<open>
  The manifest \<^verbatim>\<open>package.json\<close> as \<^verbatim>\<open>JSON.parse\<close> yields it, and the descriptor
  \<^verbatim>\<open>loadTemplate\<close> makes of it by adding \<^verbatim>\<open>dir\<close>.
\<close>

record manifest =
  pkg_template :: "string option"
  pkg_files :: "string list option"

record package = manifest +
  pkg_dir :: string

text \<open>
  Everything the module takes from outside, as parameters: the outcome of each operation
  and the text of each file read, both as functions of the history so far; the
  \<^verbatim>\<open>node:path\<close> functions; \<^verbatim>\<open>JSON.parse\<close> (\<open>None\<close> when it throws); the path of the
  built-in template directory for an identifier; \<^verbatim>\<open>mustache.render\<close>; the
  \<^verbatim>\<open>TexFormat\<close> constructor; and the date \<^verbatim>\<open>getDate\<close> reads off the clock.
  \<^verbatim>\<open>TexFormat\<close> and \<^verbatim>\<open>pdflatex\<close> are modules of the repository that are not among
  the sources.
\<close>

record env =
  succeeds :: "trace \<Rightarrow> operation \<Rightarrow> bool"
  file_text :: "trace \<Rightarrow> string \<Rightarrow> string"
  path_join :: "string \<Rightarrow> string \<Rightarrow> string"
  path_name :: "string \<Rightarrow> string"
  path_base :: "string \<Rightarrow> string"
  path_relative :: "string \<Rightarrow> string \<Rightarrow> string"
  json_parse :: "string \<Rightarrow> manifest option"
  builtin_dir :: "string \<Rightarrow> string"
  render :: "string \<Rightarrow> data \<Rightarrow> string \<times> string \<Rightarrow> string"
  TexFormat :: "tex_config \<Rightarrow> formatter"
  getDate :: string

section \<open>File system helpers\<close>

text \<open>
  An operation is issued by appending it to the history with the outcome the world gives
  it. The result is the promise: \<open>True\<close> when it fulfils.
\<close>

definition issue :: "env \<Rightarrow> operation \<Rightarrow> trace \<Rightarrow> bool \<times> trace" where
  "issue E op tr = (succeeds E tr op, tr @ [Did op (succeeds E tr op)])"

definition mkdirp :: "env \<Rightarrow> string \<Rightarrow> trace \<Rightarrow> bool \<times> trace" where
  "mkdirp E path tr = issue E (Mkdirp path) tr"

text \<open>
  Modelled from the spec: \<^verbatim>\<open>copy\<close> is imported from \<^verbatim>\<open>util/fs.js\<close> but not defined in the
  file at hand, and \<^verbatim>\<open>pdflatex.js\<close> is not among the sources. The spec gives the compiler
  its success or failure contract only, so both are operations whose outcome the world
  decides.
\<close>

definition copy :: "env \<Rightarrow> string \<Rightarrow> string \<Rightarrow> trace \<Rightarrow> bool \<times> trace" where
  "copy E src dst tr = issue E (Copy src dst) tr"

definition pdflatex :: "env \<Rightarrow> string \<Rightarrow> string \<Rightarrow> bool \<Rightarrow> trace \<Rightarrow> bool \<times> trace" where
  "pdflatex E dir article bib tr = issue E (Pdflatex dir article bib) tr"

text \<open>\<^verbatim>\<open>await readFile(path)\<close>: the text of the file, or the rejection thrown.\<close>

definition readFile :: "env \<Rightarrow> string \<Rightarrow> trace \<Rightarrow> (js_error + string) \<times> trace" where
  "readFile E path tr =
     (case issue E (ReadFile path) tr of
        (True, tr') \<Rightarrow> (Inr (file_text E tr path), tr')
      | (False, tr') \<Rightarrow> (Inl (Rejected (ReadFile path)), tr'))"

text \<open>
  \<^verbatim>\<open>writeFile(path, data)\<close> of \<^verbatim>\<open>util/fs.js\<close>. The data is a string or absent
  (\<open>None\<close> for \<^verbatim>\<open>undefined\<close> and \<^verbatim>\<open>null\<close>); it is falsy when absent or empty. The
  result is \<open>None\<close> for \<^verbatim>\<open>null\<close>, and the promise of \<^verbatim>\<open>fs.writeFile\<close> otherwise.
\<close>

definition truthy :: "string option \<Rightarrow> bool" where
  "truthy d = (case d of None \<Rightarrow> False | Some s \<Rightarrow> s \<noteq> [])"

definition writeFile :: "env \<Rightarrow> string \<Rightarrow> string option \<Rightarrow> trace \<Rightarrow> bool option \<times> trace" where
  "writeFile E path d tr =
     (if truthy d
      then (case issue E (WriteFile path (the d)) tr of (ok, tr') \<Rightarrow> (Some ok, tr'))
      else (None, tr))"

text \<open>
  \<^verbatim>\<open>await Promise.all(...)\<close> over promises already created: it fulfils when none of
  them rejects, and throws the rejection of one that does; the model names the first of the
  array. A \<^verbatim>\<open>null\<close> entry counts as fulfilled.
\<close>

fun promise_all :: "(operation \<times> bool option) list \<Rightarrow> js_error + unit" where
  "promise_all [] = Inr ()"
| "promise_all ((op, Some False) # ps) = Inl (Rejected op)"
| "promise_all ((op, _) # ps) = promise_all ps"

section \<open>Sequencing\<close>

text \<open>
  A step of the asynchronous function takes the history and gives a result or the error
  thrown, with the history it leaves. \<open>and_then\<close> runs the next step on a result and
  stops at an error, as a rejected \<^verbatim>\<open>await\<close> does.
\<close>

type_synonym 'a step = "trace \<Rightarrow> (js_error + 'a) \<times> trace"

definition and_then :: "'a step \<Rightarrow> ('a \<Rightarrow> 'b step) \<Rightarrow> 'b step" where
  "and_then m f tr = (case m tr of (Inl e, tr') \<Rightarrow> (Inl e, tr') | (Inr x, tr') \<Rightarrow> f x tr')"

definition pure_step :: "js_error + 'a \<Rightarrow> 'a step" where
  "pure_step r tr = (r, tr)"

section \<open>Template resolution\<close>

definition loadTemplate :: "env \<Rightarrow> string \<Rightarrow> package step" where
  "loadTemplate E templateDir =
     and_then (readFile E (path_join E templateDir ''package.json''))
       (\<lambda>txt. pure_step
          (case json_parse E txt of
             None \<Rightarrow> Inl SyntaxError
           | Some pkg \<Rightarrow>
               Inr \<lparr>pkg_template = pkg_template pkg, pkg_files = pkg_files pkg,
                    pkg_dir = templateDir\<rparr>))"

definition resolveTemplate :: "env \<Rightarrow> string \<Rightarrow> package step" where
  "resolveTemplate E ident tr =
     (case loadTemplate E ident tr of
        (Inr pkg, tr') \<Rightarrow> (Inr pkg, tr')
      | (Inl e, tr') \<Rightarrow> loadTemplate E (builtin_dir E ident) tr')"

section \<open>Special sections\<close>

definition extractContent :: "string \<Rightarrow> node \<Rightarrow> formatter \<Rightarrow> string" where
  "extractContent block node tex =
     tex_vspace tex block @ trim (tex_fragment tex node) @ tex_label tex node ''fig''"

text \<open>
  \<^verbatim>\<open>extractNode\<close>: \<open>Inr None\<close> when it returns nothing. The content of a preamble node is
  \<^verbatim>\<open>node.children[0].value\<close>, which throws without a first child and is \<^verbatim>\<open>undefined\<close>
  (\<open>None\<close>) when that child has no literal.
\<close>

definition extractNode :: "node \<Rightarrow> formatter \<Rightarrow> js_error + (string \<times> string option) option" where
  "extractNode node tex =
     (if name node = ''abstract'' \<or> name node = ''acknowledgments''
      then Inr (Some (name node, Some (extractContent (name node) node tex)))
      else if name node = ''latex:preamble''
      then (case children node of
              [] \<Rightarrow> Inl TypeError
            | c # _ \<Rightarrow> Inr (Some (''preamble'', literal c)))
      else if name node = ''figure''
      then (if hasClass node ''teaser''
            then Inr (Some (''teaser'', Some (extractContent ''teaser'' node tex)))
            else Inr None)
      else Inr None)"

text \<open>\<^verbatim>\<open>data[name]\<close> for the names \<^verbatim>\<open>extractNode\<close> can return.\<close>

definition get_block :: "data \<Rightarrow> string \<Rightarrow> string option" where
  "get_block d k =
     (if k = ''abstract'' then abstract d
      else if k = ''acknowledgments'' then acknowledgments d
      else if k = ''teaser'' then teaser d
      else if k = ''preamble'' then Some (preamble d)
      else None)"

definition set_block :: "data \<Rightarrow> string \<Rightarrow> string \<Rightarrow> data" where
  "set_block d k v =
     (if k = ''abstract'' then d\<lparr>abstract := Some v\<rparr>
      else if k = ''acknowledgments'' then d\<lparr>acknowledgments := Some v\<rparr>
      else if k = ''teaser'' then d\<lparr>teaser := Some v\<rparr>
      else if k = ''preamble'' then d\<lparr>preamble := v\<rparr>
      else d)"

text \<open>
  \<^verbatim>\<open>(data[name] || '') + content\<close>: an absent or empty block counts as the empty string,
  and \<^verbatim>\<open>+\<close> writes an \<^verbatim>\<open>undefined\<close> content as the word.
\<close>

definition appended :: "string option \<Rightarrow> string option \<Rightarrow> string" where
  "appended old c =
     (if truthy old then the old else []) @ (case c of None \<Rightarrow> ''undefined'' | Some x \<Rightarrow> x)"

text \<open>The \<^verbatim>\<open>forEach\<close> over the top-level children.\<close>

fun extract_all :: "node list \<Rightarrow> formatter \<Rightarrow> data \<Rightarrow> js_error + data" where
  "extract_all [] tex d = Inr d"
| "extract_all (node # rest) tex d =
     (case extractNode node tex of
        Inl e \<Rightarrow> Inl e
      | Inr None \<Rightarrow> extract_all rest tex d
      | Inr (Some (k, c)) \<Rightarrow> extract_all rest tex (set_block d k (appended (get_block d k) c)))"

section \<open>Template data\<close>

definition opt_template :: "options \<Rightarrow> string" where
  "opt_template opts = (case template opts of None \<Rightarrow> ''article'' | Some t \<Rightarrow> t)"

definition opt_tags :: "options \<Rightarrow> string \<times> string" where
  "opt_tags opts = (case tags opts of None \<Rightarrow> (''<<'', ''>>'') | Some t \<Rightarrow> t)"

definition opt_pdf :: "options \<Rightarrow> bool" where
  "opt_pdf opts = (case pdf opts of None \<Rightarrow> True | Some b \<Rightarrow> b)"

definition opt_latexDir :: "env \<Rightarrow> run_context \<Rightarrow> options \<Rightarrow> string" where
  "opt_latexDir E ctx opts =
     (case latexDir opts of
        None \<Rightarrow> path_join E (if opt_pdf opts then tempDir ctx else outputDir ctx) ''latex''
      | Some d \<Rightarrow> d)"

definition opt_vspace :: "options \<Rightarrow> (string \<times> string) list" where
  "opt_vspace opts = (case vspace opts of None \<Rightarrow> [] | Some v \<Rightarrow> v)"

definition articleName :: "env \<Rightarrow> run_context \<Rightarrow> string" where
  "articleName E ctx = path_name E (inputFile ctx)"

text \<open>\<^verbatim>\<open>citations?.bibtex?.length > 0\<close>\<close>

definition has_bibtex :: "run_context \<Rightarrow> bool" where
  "has_bibtex ctx =
     (case citations ctx of
        None \<Rightarrow> False
      | Some c \<Rightarrow> (case cite_bibtex c of None \<Rightarrow> False | Some entries \<Rightarrow> 0 < length entries))"

definition bibtex_entries :: "run_context \<Rightarrow> string list" where
  "bibtex_entries ctx =
     (case citations ctx of
        None \<Rightarrow> []
      | Some c \<Rightarrow> (case cite_bibtex c of None \<Rightarrow> [] | Some entries \<Rightarrow> entries))"

definition make_format :: "env \<Rightarrow> run_context \<Rightarrow> options \<Rightarrow> place_map \<Rightarrow> formatter" where
  "make_format E ctx opts pm =
     TexFormat E
       \<lparr>cfg_references = (case citations ctx of None \<Rightarrow> None | Some c \<Rightarrow> cite_references c),
        cfg_prefix = [(''fig'', ''Figure~''), (''tbl'', ''Table~''), (''eqn'', ''Equation~''),
                      (''sec'', [CHR 0x5C, CHR ''S''])],
        cfg_classes = [(''smallcaps'', ''textsc''), (''italic'', ''textit''), (''emph'', ''emph''),
                       (''bold'', ''textbf''), (''strong'', ''textbf''), (''demi'', ''textbf''),
                       (''underline'', ''uline'')],
        cfg_places = pm,
        cfg_vspace = opt_vspace opts\<rparr>"

text \<open>\<^verbatim>\<open>x || y\<close> on an optional string.\<close>

definition or_else :: "string option \<Rightarrow> string \<Rightarrow> string" where
  "or_else x y = (if truthy x then the x else y)"

definition unknown_author :: author where
  "unknown_author = \<lparr>author_name = ''Unknown Author'', affiliation = None\<rparr>"

text \<open>The object literal \<^verbatim>\<open>data\<close>, before the special sections are added.\<close>

definition marshal :: "env \<Rightarrow> formatter \<Rightarrow> node \<Rightarrow> run_context \<Rightarrow> options \<Rightarrow> data" where
  "marshal E tex ast ctx opts =
     (let au = (case meta_author (metadata ctx) of None \<Rightarrow> [unknown_author] | Some a \<Rightarrow> a)
      in \<lparr>date = or_else (tex_field tex (meta_date (metadata ctx))) (getDate E),
          title = or_else (tex_field tex (meta_title (metadata ctx))) ''Untitled Article'',
          author = au,
          author_first = (case au of [] \<Rightarrow> None | a # _ \<Rightarrow> Some a),
          author_rest = drop 1 au,
          author_names = join (map author_name au) '', '',
          title_short = tex_field tex (meta_title_short (metadata ctx)),
          author_short = tex_field tex (meta_author_short (metadata ctx)),
          bibtex = (if has_bibtex ctx then Some (articleName E ctx @ ''.bib'') else None),
          keyword_line = (case meta_keywords (metadata ctx) of
                            None \<Rightarrow> None
                          | Some ks \<Rightarrow> Some (join ks '', '')),
          preamble = CHR 0x5C # ''graphicspath{{''
                       @ path_relative E (opt_latexDir E ctx opts) (inputDir ctx)
                       @ ''}}'' @ [CHR 0x0A],
          content = trim (tex_tree tex ast),
          abstract = None, acknowledgments = None, teaser = None\<rparr>)"

section \<open>Writing the output files\<close>

text \<open>The copies of the template's additional files, started in the order of the list.\<close>

fun copy_files :: "env \<Rightarrow> string \<Rightarrow> string \<Rightarrow> string list \<Rightarrow> trace
      \<Rightarrow> (operation \<times> bool option) list \<times> trace" where
  "copy_files E dir ldir [] tr = ([], tr)"
| "copy_files E dir ldir (f # fs) tr =
     (case copy E (path_join E dir f) (path_join E ldir (path_base E f)) tr of
        (ok, tr') \<Rightarrow>
          (case copy_files E dir ldir fs tr' of
             (ps, tr'') \<Rightarrow>
               ((Copy (path_join E dir f) (path_join E ldir (path_base E f)), Some ok) # ps, tr'')))"

text \<open>
  The second \<^verbatim>\<open>Promise.all\<close>: every element of the array is started, in order, before
  the \<^verbatim>\<open>await\<close>. \<open>bibtext\<close> is the escaped bibliography, present when there are entries.
\<close>

definition write_outputs :: "env \<Rightarrow> string \<Rightarrow> string \<Rightarrow> string \<Rightarrow> string option \<Rightarrow> package
      \<Rightarrow> unit step" where
  "write_outputs E ldir article source bibtext pkg tr =
     (case writeFile E (path_join E ldir (article @ ''.tex'')) (Some source) tr of
        (r1, tr1) \<Rightarrow>
          (case (case bibtext of
                   None \<Rightarrow> ([], tr1)
                 | Some b \<Rightarrow>
                     (case writeFile E (path_join E ldir (article @ ''.bib'')) (Some b) tr1 of
                        (r2, tr2) \<Rightarrow>
                          ([(WriteFile (path_join E ldir (article @ ''.bib'')) b, r2)], tr2))) of
             (ps2, tr2) \<Rightarrow>
               (case copy_files E (pkg_dir pkg) ldir
                       (case pkg_files pkg of None \<Rightarrow> [] | Some fs \<Rightarrow> fs) tr2 of
                  (ps3, tr3) \<Rightarrow>
                    (promise_all
                       ((WriteFile (path_join E ldir (article @ ''.tex'')) source, r1) # ps2 @ ps3),
                     tr3))))"

section \<open>The compilation\<close>

text \<open>
  What the function has computed when it starts to write: the template data, the rendered
  source, the escaped bibliography (present when there are entries) and the template
  package.
\<close>

record prepared =
  p_data :: data
  p_source :: string
  p_bibtext :: "string option"
  p_package :: package

definition make_dirs :: "env \<Rightarrow> string \<Rightarrow> string \<Rightarrow> unit step" where
  "make_dirs E odir ldir tr =
     (case mkdirp E odir tr of
        (ok1, tr1) \<Rightarrow>
          (case mkdirp E ldir tr1 of
             (ok2, tr2) \<Rightarrow>
               (promise_all [(Mkdirp odir, Some ok1), (Mkdirp ldir, Some ok2)], tr2)))"

definition readTemplate :: "env \<Rightarrow> package \<Rightarrow> string step" where
  "readTemplate E pkg =
     (case pkg_template pkg of
        None \<Rightarrow> pure_step (Inl TypeError)
      | Some file \<Rightarrow> readFile E (path_join E (pkg_dir pkg) file))"

text \<open>Lines 13 to 84 of the default export: everything up to the rendered source.\<close>

definition prepare :: "env \<Rightarrow> node \<Rightarrow> run_context \<Rightarrow> options \<Rightarrow> prepared step" where
  "prepare E ast ctx opts =
     and_then (make_dirs E (outputDir ctx) (opt_latexDir E ctx opts)) (\<lambda>_.
     and_then (pure_step (places ast)) (\<lambda>(ast', pm).
       let tex = make_format E ctx opts pm in
     and_then (pure_step (extract_all (getChildren ast') tex (marshal E tex ast' ctx opts))) (\<lambda>d.
     and_then (resolveTemplate E (opt_template opts)) (\<lambda>pkg.
     and_then (readTemplate E pkg) (\<lambda>tmpl.
       pure_step
         (Inr \<lparr>p_data = d,
               p_source = render E tmpl d (opt_tags opts),
               p_bibtext =
                 (if has_bibtex ctx
                  then Some (tex_string tex (join (bibtex_entries ctx) [CHR 0x0A, CHR 0x0A]))
                  else None),
               p_package = pkg\<rparr>))))))"

text \<open>Lines 13 to 105: everything before the \<^verbatim>\<open>pdf\<close> test.\<close>

definition emit :: "env \<Rightarrow> node \<Rightarrow> run_context \<Rightarrow> options \<Rightarrow> prepared step" where
  "emit E ast ctx opts =
     and_then (prepare E ast ctx opts) (\<lambda>p.
     and_then (write_outputs E (opt_latexDir E ctx opts) (articleName E ctx)
                 (p_source p) (p_bibtext p) (p_package p)) (\<lambda>_.
       pure_step (Inr p)))"

text \<open>What the call gives its caller: the value it returns (\<open>None\<close> for none) or the error.\<close>

datatype outcome = Returned "string option" | Threw js_error

text \<open>Lines 107 to 121: the \<^verbatim>\<open>pdf\<close> test, with its \<^verbatim>\<open>try\<close> and \<^verbatim>\<open>catch\<close>.\<close>

definition typeset :: "env \<Rightarrow> run_context \<Rightarrow> options \<Rightarrow> trace \<Rightarrow> outcome \<times> trace" where
  "typeset E ctx opts tr =
     (let ldir = opt_latexDir E ctx opts;
          article = articleName E ctx;
          target = path_join E (outputDir ctx) (article @ ''.pdf'')
      in if opt_pdf opts
         then (case pdflatex E ldir article (has_bibtex ctx)
                      (tr @ [LogDebug (''Running pdflatex for '' @ article @ ''.tex'')]) of
                 (False, tr1) \<Rightarrow>
                   (Returned None,
                    tr1 @ [LogError ''Compiling latex PDF''
                             (Rejected (Pdflatex ldir article (has_bibtex ctx)))])
               | (True, tr1) \<Rightarrow>
                   (case copy E (path_join E ldir (article @ ''.pdf'')) target tr1 of
                      (False, tr2) \<Rightarrow>
                        (Returned None,
                         tr2 @ [LogError ''Compiling latex PDF''
                                  (Rejected (Copy (path_join E ldir (article @ ''.pdf'')) target))])
                    | (True, tr2) \<Rightarrow> (Returned (Some target), tr2)))
         else (Returned (Some ldir), tr))"

definition compile :: "env \<Rightarrow> node \<Rightarrow> run_context \<Rightarrow> options \<Rightarrow> outcome \<times> trace" where
  "compile E ast ctx opts =
     (case emit E ast ctx opts [] of
        (Inl e, tr) \<Rightarrow> (Threw e, tr)
      | (Inr _, tr) \<Rightarrow> typeset E ctx opts tr)"

section \<open>Notions used to state and prove the properties\<close>

text \<open>The nodes of a tree in the order \<open>visitNodes\<close> reaches them.\<close>

fun nodes :: "node \<Rightarrow> node list" where
  "nodes (Node n ps cl cs v) = Node n ps cl cs v # concat (map nodes cs)"

text \<open>
  A raw node in the target format, the text \<^verbatim>\<open>places\<close> reads from it, a figure node
  with a given \<^verbatim>\<open>id\<close>, and the text of a well-formed place directive.
\<close>

definition raw_tex :: "node \<Rightarrow> bool" where
  "raw_tex g = (name g = ''raw'' \<and> getPropertyValue g ''format'' = Some ''tex'')"

definition raw_text :: "node \<Rightarrow> string option" where
  "raw_text g = (case children g of [] \<Rightarrow> None | c # _ \<Rightarrow> literal c)"

definition figure_with :: "string \<Rightarrow> node \<Rightarrow> bool" where
  "figure_with k g = (name g = ''figure'' \<and> getPropertyValue g ''id'' = Some k)"

definition directive :: "string \<Rightarrow> string" where
  "directive k = cmd @ k @ ''}''"

text \<open>
  What the first callback does at one node, apart from the state it threads: the
  identifier it finds, if any, or the error it throws.
\<close>

definition place_of :: "node \<Rightarrow> js_error + string option" where
  "place_of node =
     (if name node \<noteq> ''raw'' \<or> getPropertyValue node ''format'' \<noteq> Some ''tex''
      then Inr None
      else (case children node of
              [] \<Rightarrow> Inl TypeError
            | c # _ \<Rightarrow>
                (case literal c of
                   None \<Rightarrow> Inl TypeError
                 | Some text \<Rightarrow>
                     if startsWith text cmd
                     then Inr (Some (slice text (int (length cmd)) (indexOf text (CHR ''}''))))
                     else Inr None)))"

definition marked :: "node \<Rightarrow> (string \<times> string) list" where
  "marked g =
     (case place_of g of
        Inr (Some k) \<Rightarrow> setValueProperty (properties g) ''place'' k
      | _ \<Rightarrow> properties g)"

definition register :: "place_map \<Rightarrow> node \<Rightarrow> place_map" where
  "register m g = (case place_of g of Inr (Some k) \<Rightarrow> AList.update k Empty m | _ \<Rightarrow> m)"

text \<open>The tree as the first traversal leaves it when no callback throws.\<close>

fun annotate :: "node \<Rightarrow> node" where
  "annotate (Node n ps cl cs v) = Node n (marked (Node n ps cl cs v)) cl (map annotate cs) v"

definition scannable :: "node \<Rightarrow> bool" where
  "scannable t = (\<forall>g \<in> set (nodes t). \<forall>e. place_of g \<noteq> Inl e)"

definition bind_figure :: "place_map \<Rightarrow> node \<Rightarrow> place_map" where
  "bind_figure m g = (case scan_figure g m of Inr (_, m') \<Rightarrow> m' | Inl _ \<Rightarrow> m)"

definition resolved :: "node \<Rightarrow> place_map" where
  "resolved t =
     (if foldl register [] (nodes t) \<noteq> []
      then foldl bind_figure (foldl register [] (nodes t)) (nodes (annotate t))
      else foldl register [] (nodes t))"

text \<open>Small trees on which the properties are instantiated.\<close>

definition text_node :: "string \<Rightarrow> node" where
  "text_node s = Node ''text'' [] [] [] (Some s)"

definition raw_node :: "string \<Rightarrow> node" where
  "raw_node s = Node ''raw'' [(''format'', ''tex'')] [] [text_node s] None"

definition figure_node :: "string \<Rightarrow> node" where
  "figure_node k = Node ''figure'' [(''id'', k)] [] [] None"

definition document :: "node list \<Rightarrow> node" where
  "document cs = Node ''article'' [] [] cs None"

text \<open>
  Observations on a history: the files \<^verbatim>\<open>writeFile\<close> has been asked to write, with their
  text, and the invocations of the typesetting compiler.
\<close>

fun written :: "event \<Rightarrow> (string \<times> string) list" where
  "written (Did (WriteFile path d) ok) = [(path, d)]"
| "written e = []"

definition writes :: "trace \<Rightarrow> (string \<times> string) list" where
  "writes tr = concat (map written tr)"

fun is_compiler_run :: "event \<Rightarrow> bool" where
  "is_compiler_run (Did (Pdflatex dir article bib) ok) = True"
| "is_compiler_run e = False"

definition compiler_runs :: "trace \<Rightarrow> event list" where
  "compiler_runs tr = filter is_compiler_run tr"

text \<open>
  A world on which the properties are instantiated: the operations in \<open>fails\<close> reject,
  the two manifests hold \<^verbatim>\<open>{"template": "template.tex"}\<close>, every other file holds the text
  \<open>tmpl\<close>, a template without tags renders to itself, and the formatter leaves text as
  it is.
\<close>

definition manifest_text :: string where
  "manifest_text =
     ''{'' @ [CHR 0x22] @ ''template'' @ [CHR 0x22] @ '': '' @ [CHR 0x22] @ ''template.tex''
       @ [CHR 0x22] @ ''}''"

definition plain_format :: "tex_config \<Rightarrow> formatter" where
  "plain_format cfg =
     \<lparr>tex_tree = (\<lambda>n. name n),
      tex_field = (\<lambda>x. x),
      tex_string = (\<lambda>s. s),
      tex_vspace = (\<lambda>b. case map_of (cfg_vspace cfg) b of None \<Rightarrow> [] | Some v \<Rightarrow> v),
      tex_fragment = (\<lambda>n. concat (map (\<lambda>c. case literal c of None \<Rightarrow> [] | Some s \<Rightarrow> s) (children n))),
      tex_label = (\<lambda>n c. case getPropertyValue n ''id'' of None \<Rightarrow> [] | Some i \<Rightarrow> c @ '':'' @ i)\<rparr>"

definition test_env :: "(operation \<Rightarrow> bool) \<Rightarrow> string \<Rightarrow> env" where
  "test_env fails tmpl =
     \<lparr>succeeds = (\<lambda>tr op. \<not> fails op),
      file_text = (\<lambda>tr p. if p = ''article/package.json'' \<or> p = ''builtin/article/package.json''
                         then manifest_text else tmpl),
      path_join = (\<lambda>a b. a @ ''/'' @ b),
      path_name = (\<lambda>p. ''paper''),
      path_base = (\<lambda>p. p),
      path_relative = (\<lambda>a b. ''../../'' @ b),
      json_parse = (\<lambda>s. if s = manifest_text
                       then Some \<lparr>pkg_template = Some ''template.tex'', pkg_files = None\<rparr>
                       else None),
      builtin_dir = (\<lambda>i. ''builtin/'' @ i),
      render = (\<lambda>t d tg. t),
      TexFormat = plain_format,
      getDate = ''today''\<rparr>"

definition test_context :: run_context where
  "test_context =
     \<lparr>citations = None,
      metadata = \<lparr>meta_title = None, meta_title_short = None, meta_author = None,
                  meta_author_short = None, meta_date = None, meta_keywords = None\<rparr>,
      inputDir = ''in'', inputFile = ''in/paper.md'', outputDir = ''out'', tempDir = ''tmp''\<rparr>"

definition default_options :: options where
  "default_options = \<lparr>template = None, tags = None, pdf = None, latexDir = None, vspace = None\<rparr>"

definition is_pdflatex :: "operation \<Rightarrow> bool" where
  "is_pdflatex op = (case op of Pdflatex _ _ _ \<Rightarrow> True | _ \<Rightarrow> False)"

text \<open>
  A step is silent when it asks for no write and runs no compiler. The two lists are the
  writes the second \<^verbatim>\<open>Promise.all\<close> asks for: \<^verbatim>\<open>writeFile\<close> passes on only a text that is
  not empty.
\<close>

definition silent :: "'a step \<Rightarrow> bool" where
  "silent m = (\<forall>tr. writes (snd (m tr)) = writes tr \<and> compiler_runs (snd (m tr)) = compiler_runs tr)"

definition source_write :: "env \<Rightarrow> run_context \<Rightarrow> options \<Rightarrow> string \<Rightarrow> (string \<times> string) list" where
  "source_write E ctx opts src =
     (if src \<noteq> [] then [(path_join E (opt_latexDir E ctx opts) (articleName E ctx @ ''.tex''), src)] else [])"

definition bib_write :: "env \<Rightarrow> run_context \<Rightarrow> options \<Rightarrow> string option \<Rightarrow> (string \<times> string) list" where
  "bib_write E ctx opts bt =
     (case bt of
        None \<Rightarrow> []
      | Some b \<Rightarrow>
          if b \<noteq> [] then [(path_join E (opt_latexDir E ctx opts) (articleName E ctx @ ''.bib''), b)] else [])"

text \<open>The history once the first two elements of the array of the second \<^verbatim>\<open>Promise.all\<close> are made.\<close>

definition after_writes :: "env \<Rightarrow> string \<Rightarrow> string \<Rightarrow> string \<Rightarrow> string option \<Rightarrow> trace \<Rightarrow> trace" where
  "after_writes E ldir a src bt tr =
     (let tr1 = snd (writeFile E (path_join E ldir (a @ ''.tex'')) (Some src) tr)
      in case bt of
           None \<Rightarrow> tr1
         | Some b \<Rightarrow> snd (writeFile E (path_join E ldir (a @ ''.bib'')) (Some b) tr1))"

text \<open>Worlds, options, contexts and trees on which the properties are instantiated.\<close>

definition is_read :: "operation \<Rightarrow> bool" where
  "is_read op = (case op of ReadFile _ \<Rightarrow> True | _ \<Rightarrow> False)"

definition never :: "operation \<Rightarrow> bool" where
  "never op = False"

definition primary_missing :: "operation \<Rightarrow> bool" where
  "primary_missing op = (op = ReadFile ''article/package.json'')"

definition pdf_off :: options where
  "pdf_off = \<lparr>template = None, tags = None, pdf = Some False, latexDir = None, vspace = None\<rparr>"

definition empty_bibliography :: run_context where
  "empty_bibliography =
     test_context\<lparr>citations := Some \<lparr>cite_references = None, cite_bibtex = Some []\<rparr>\<rparr>"

definition thanks :: "string \<Rightarrow> node" where
  "thanks s = Node ''acknowledgments'' [] [] [text_node s] None"

definition spaced :: formatter where
  "spaced = plain_format \<lparr>cfg_references = None, cfg_prefix = [], cfg_classes = [], cfg_places = [],
               cfg_vspace = [(''acknowledgments'', ''+'')]\<rparr>"

section \<open>The place scan as two folds\<close>

lemma scan_place_alt:
  "scan_place g m = (case place_of g of Inl e \<Rightarrow> Inl e | Inr _ \<Rightarrow> Inr (marked g, register m g))"
  by (simp add: scan_place_def place_of_def marked_def register_def Let_def split: list.splits option.splits)

lemma nodes_self: "t \<in> set (nodes t)" by (cases t) simp


lemma place_of_error: "place_of g = Inl e \<Longrightarrow> e = TypeError"
  by (auto simp: place_of_def split: if_splits list.splits option.splits)

lemma scannable_Node:
  "scannable (Node n ps cl cs v) \<longleftrightarrow>
     (\<forall>e. place_of (Node n ps cl cs v) \<noteq> Inl e) \<and> (\<forall>c\<in>set cs. scannable c)"
  by (auto simp: scannable_def)

lemma visitList_place:
  assumes "\<And>c m. c \<in> set cs \<Longrightarrow> visitNodes scan_place c m =
             (if scannable c then Inr (annotate c, foldl register m (nodes c)) else Inl TypeError)"
  shows "visitList scan_place cs m =
           (if \<forall>c\<in>set cs. scannable c
            then Inr (map annotate cs, foldl register m (concat (map nodes cs)))
            else Inl TypeError)"
  using assms by (induction cs arbitrary: m) auto

lemma visitNodes_place:
  "visitNodes scan_place t m =
     (if scannable t then Inr (annotate t, foldl register m (nodes t)) else Inl TypeError)"
proof (induction t arbitrary: m)
  case (Node n ps cl cs v)
  let ?g = "Node n ps cl cs v"
  have kids: "\<And>m'. visitList scan_place cs m' =
           (if \<forall>c\<in>set cs. scannable c
            then Inr (map annotate cs, foldl register m' (concat (map nodes cs)))
            else Inl TypeError)"
    by (rule visitList_place) (use Node.IH in blast)
  show ?case
  proof (cases "place_of ?g")
    case (Inl e)
    then have "scan_place ?g m = Inl TypeError"
      using place_of_error [OF Inl] by (simp add: scan_place_alt)
    with Inl show ?thesis
      by (simp add: scannable_Node)
  next
    case (Inr k)
    then have "scan_place ?g m = Inr (marked ?g, register m ?g)"
      by (simp add: scan_place_alt)
    with Inr show ?thesis
      by (simp add: scannable_Node kids)
  qed
qed

lemma scan_figure_alt: "scan_figure g m = Inr (properties g, bind_figure m g)"
  by (simp add: scan_figure_def bind_figure_def split: option.splits)

lemma visitList_figure:
  assumes "\<And>c m. c \<in> set cs \<Longrightarrow> visitNodes scan_figure c m = Inr (c, foldl bind_figure m (nodes c))"
  shows "visitList scan_figure cs m = Inr (cs, foldl bind_figure m (concat (map nodes cs)))"
  using assms by (induction cs arbitrary: m) auto

lemma visitNodes_figure:
  "visitNodes scan_figure t m = Inr (t, foldl bind_figure m (nodes t))"
proof (induction t arbitrary: m)
  case (Node n ps cl cs v)
  have "\<And>m'. visitList scan_figure cs m' = Inr (cs, foldl bind_figure m' (concat (map nodes cs)))"
    by (rule visitList_figure) (use Node.IH in blast)
  moreover have "scan_figure (Node n ps cl cs v) m = Inr (ps, bind_figure m (Node n ps cl cs v))"
    by (simp add: scan_figure_alt)
  ultimately show ?case by simp
qed

lemma places_alt:
  "places t = (if scannable t then Inr (annotate t, resolved t) else Inl TypeError)"
  by (simp add: places_def visitNodes_place visitNodes_figure resolved_def)

lemma place_of_raw:
  "place_of g = (if raw_tex g then (case raw_text g of None \<Rightarrow> Inl TypeError
      | Some text \<Rightarrow> if startsWith text cmd then Inr (Some (slice text (int (length cmd)) (indexOf text (CHR ''}'')))) else Inr None)
     else Inr None)"
  by (auto simp: place_of_def raw_tex_def raw_text_def split: list.splits option.splits)

lemma name_annotate [simp]: "name (annotate g) = name g" by (cases g) simp
lemma literal_annotate [simp]: "literal (annotate g) = literal g" by (cases g) simp
lemma classes_annotate [simp]: "classes (annotate g) = classes g" by (cases g) simp
lemma children_annotate [simp]: "children (annotate g) = map annotate (children g)" by (cases g) simp
lemma properties_annotate: "properties (annotate g) = marked g" by (cases g) simp

lemma map_of_marked: "k \<noteq> ''place'' \<Longrightarrow> map_of (marked g) k = map_of (properties g) k"
  by (simp add: marked_def setValueProperty_def update_conv' split: sum.splits option.splits)

lemma getPropertyValue_annotate: "k \<noteq> ''place'' \<Longrightarrow> getPropertyValue (annotate g) k = getPropertyValue g k"
  by (simp add: getPropertyValue_def properties_annotate map_of_marked)

lemma raw_text_annotate [simp]: "raw_text (annotate g) = raw_text g"
  by (simp add: raw_text_def split: list.splits)

lemma raw_tex_annotate [simp]: "raw_tex (annotate g) = raw_tex g"
  by (simp add: raw_tex_def getPropertyValue_annotate)

lemma figure_with_annotate [simp]: "figure_with k (annotate g) = figure_with k g"
  by (simp add: figure_with_def getPropertyValue_annotate)

lemma place_of_annotate [simp]: "place_of (annotate g) = place_of g"
  by (simp add: place_of_raw)

lemma register_annotate [simp]: "register m (annotate g) = register m g"
  by (simp add: register_def)

lemma marked_annotate [simp]: "marked (annotate g) = marked g"
  by (simp add: marked_def properties_annotate setValueProperty_def split: sum.splits option.splits)

lemma annotate_idem [simp]: "annotate (annotate t) = annotate t"
proof (induction t)
  case (Node n ps cl cs v)
  have "marked (annotate (Node n ps cl cs v)) = marked (Node n ps cl cs v)"
    by (rule marked_annotate)
  moreover have "map (annotate \<circ> annotate) cs = map annotate cs"
    using Node.IH by simp
  ultimately show ?case by simp
qed

lemma nodes_annotate: "nodes (annotate t) = map annotate (nodes t)"
proof (induction t)
  case (Node n ps cl cs v)
  show ?case by (simp add: map_concat comp_def Node.IH cong: map_cong)
qed


lemma map_of_register:
  "map_of (register m g) k = (if place_of g = Inr (Some k) then Some Empty else map_of m k)"
  by (auto simp: register_def update_conv' split: sum.splits option.splits)

lemma map_of_foldl_register:
  "map_of (foldl register m gs) k =
     (if \<exists>g\<in>set gs. place_of g = Inr (Some k) then Some Empty else map_of m k)"
  by (induction gs arbitrary: m) (auto simp: map_of_register)

lemma keys_map_of: "k \<in> fst ` set m \<longleftrightarrow> map_of m k \<noteq> None"
  by (simp add: map_of_eq_None_iff)

lemma bind_figure_alt:
  "bind_figure m g =
     (case getPropertyValue g ''id'' of
        Some k \<Rightarrow> if name g = ''figure'' \<and> k \<noteq> [] \<and> k \<in> fst ` set m
                  then AList.update k (Figure g) m else m
      | None \<Rightarrow> m)"
  by (simp add: bind_figure_def scan_figure_def split: option.splits)

lemma keys_bind_figure: "fst ` set (bind_figure m g) = fst ` set m"
  by (auto simp: bind_figure_alt dom_update split: option.splits)

lemma keys_foldl_bind_figure: "fst ` set (foldl bind_figure m gs) = fst ` set m"
  by (induction gs arbitrary: m) (simp_all add: keys_bind_figure)

lemma map_of_bind_figure:
  "k \<noteq> [] \<Longrightarrow> k \<in> fst ` set m \<Longrightarrow>
   map_of (bind_figure m g) k = (if figure_with k g then Some (Figure g) else map_of m k)"
  by (auto simp: bind_figure_alt figure_with_def update_conv' split: option.splits)

lemma map_of_foldl_bind_figure:
  assumes "k \<noteq> []" "k \<in> fst ` set m"
  shows "map_of (foldl bind_figure m gs) k =
     (if filter (figure_with k) gs = [] then map_of m k
      else Some (Figure (last (filter (figure_with k) gs))))"
proof (induction gs rule: rev_induct)
  case Nil
  then show ?case by simp
next
  case (snoc g gs)
  have "k \<in> fst ` set (foldl bind_figure m gs)"
    using assms(2) by (simp add: keys_foldl_bind_figure)
  then show ?case
    using snoc assms(1) by (simp add: map_of_bind_figure)
qed

lemma filter_only_index:
  assumes "i < length gs" "P (gs ! i)" "\<forall>j<length gs. P (gs ! j) \<longrightarrow> j = i"
  shows "filter P gs = [gs ! i]"
proof -
  have split: "gs = take i gs @ gs ! i # drop (Suc i) gs"
    using assms(1) by (rule id_take_nth_drop)
  have "filter P (take i gs) = []"
  proof -
    have "\<not> P x" if "x \<in> set (take i gs)" for x
    proof -
      from that obtain j where j: "j < i" "x = gs ! j"
        using assms(1) by (auto simp: in_set_conv_nth)
      then have "j < length gs" "j \<noteq> i"
        using assms(1) by simp_all
      with assms(3) j(2) show ?thesis by blast
    qed
    then show ?thesis by (simp add: filter_empty_conv)
  qed
  moreover have "filter P (drop (Suc i) gs) = []"
  proof -
    have "\<not> P x" if "x \<in> set (drop (Suc i) gs)" for x
    proof -
      from that obtain j where j: "j < length gs - Suc i" "x = gs ! (Suc i + j)"
        by (auto simp: in_set_conv_nth)
      then have "Suc i + j < length gs" "Suc i + j \<noteq> i"
        by simp_all
      with assms(3) j(2) show ?thesis by blast
    qed
    then show ?thesis by (simp add: filter_empty_conv)
  qed
  ultimately have "filter P (take i gs @ gs ! i # drop (Suc i) gs) = [gs ! i]"
    using assms(2) by simp
  with split show ?thesis by simp
qed

lemma filter_figure_annotate:
  "filter (figure_with k) (map annotate gs) = map annotate (filter (figure_with k) gs)"
  by (simp add: filter_map comp_def)

lemma scannable_iff:
  "scannable t \<longleftrightarrow> (\<forall>g\<in>set (nodes t). raw_tex g \<longrightarrow> raw_text g \<noteq> None)"
  by (auto simp: scannable_def place_of_raw split: option.splits if_splits)

lemma place_of_figA:
  "raw_tex g \<Longrightarrow> raw_text g = Some (directive ''figA'') \<Longrightarrow> place_of g = Inr (Some ''figA'')"
  by (simp add: place_of_raw directive_def cmd_def startsWith_def slice_def)

lemma resolved_annotate: "resolved (annotate t) = resolved t"
  by (simp add: resolved_def nodes_annotate foldl_map)


section \<open>Properties of the place scan\<close>

lemma nodes_example:
  "nodes (document [raw_node (directive ''figA''), figure_node ''figA'']) =
     [document [raw_node (directive ''figA''), figure_node ''figA''],
      raw_node (directive ''figA''), text_node (directive ''figA''), figure_node ''figA'']"
  by (simp add: document_def raw_node_def text_node_def figure_node_def)

lemma places_example:
  "places (document [raw_node (directive ''figA''), figure_node ''figA'']) =
     Inr (document [Node ''raw'' [(''format'', ''tex''), (''place'', ''figA'')] []
                     [text_node (directive ''figA'')] None, figure_node ''figA''],
          [(''figA'', Figure (figure_node ''figA''))])"
  by (simp add: places_def scan_place_def scan_figure_def document_def raw_node_def text_node_def
      figure_node_def directive_def getPropertyValue_def setValueProperty_def cmd_def
      startsWith_def slice_def Let_def)

text \<open>
  C1. A raw node in the format \<^verbatim>\<open>tex\<close> whose text starts with the placement command
  and has no closing brace is claimed to leave no trace: no \<^verbatim>\<open>place\<close> property, no entry
  in the map. The code does not throw, but \<^verbatim>\<open>indexOf\<close> answers \<open>-1\<close> and \<^verbatim>\<open>slice\<close>
  reads that as "up to the last character": on the text \<^verbatim>\<open>\place{figA\<close> the node gets the
  \<^verbatim>\<open>place\<close> property \<^verbatim>\<open>fig\<close>, and the map the entry \<^verbatim>\<open>fig\<close> with the empty
  placeholder.
\<close>

theorem places_malformed_directive:
  "places (document [raw_node (cmd @ ''figA'')]) =
     Inr (document [Node ''raw'' [(''format'', ''tex''), (''place'', ''fig'')] []
                     [text_node (cmd @ ''figA'')] None],
          [(''fig'', Empty)])"
  by (simp add: places_def scan_place_def scan_figure_def document_def raw_node_def text_node_def
      getPropertyValue_def setValueProperty_def cmd_def startsWith_def slice_def Let_def)

text \<open>
  C2. Take a document tree whose raw nodes in the format \<^verbatim>\<open>tex\<close> all carry a text, one
  of them the text \<^verbatim>\<open>\place{figA}\<close>. Then \<^verbatim>\<open>places\<close> returns a map. If exactly one
  node of the tree, wherever it stands, is a figure with the \<^verbatim>\<open>id\<close> \<^verbatim>\<open>figA\<close> (ids are
  unique in a document tree), the map sends \<^verbatim>\<open>figA\<close> to that node: the node at the same
  position of the tree as the scan leaves it. If no node is such a figure, the map sends
  \<^verbatim>\<open>figA\<close> to the empty placeholder.
\<close>

theorem places_binds_figA:
  assumes wf: "\<forall>g\<in>set (nodes t). raw_tex g \<longrightarrow> raw_text g \<noteq> None"
    and r: "r \<in> set (nodes t)" "raw_tex r" "raw_text r = Some (directive ''figA'')"
  shows "\<exists>t' m. places t = Inr (t', m) \<and> length (nodes t') = length (nodes t) \<and>
           (\<forall>i<length (nodes t).
              figure_with ''figA'' (nodes t ! i) \<and>
              (\<forall>j<length (nodes t). figure_with ''figA'' (nodes t ! j) \<longrightarrow> j = i)
              \<longrightarrow> map_of m ''figA'' = Some (Figure (nodes t' ! i)) \<and>
                  figure_with ''figA'' (nodes t' ! i)) \<and>
           ((\<forall>g\<in>set (nodes t). \<not> figure_with ''figA'' g) \<longrightarrow> map_of m ''figA'' = Some Empty)"
proof -
  let ?m1 = "foldl register [] (nodes t)"
  let ?m = "foldl bind_figure ?m1 (nodes (annotate t))"
  have reg: "map_of ?m1 ''figA'' = Some Empty"
    using r by (auto simp: map_of_foldl_register dest: place_of_figA)
  then have ne: "?m1 \<noteq> []" by auto
  have key: "''figA'' \<in> fst ` set ?m1"
    using reg by (simp add: keys_map_of)
  have run: "places t = Inr (annotate t, ?m)"
    using wf ne by (simp add: places_alt scannable_iff resolved_def)
  have val: "map_of ?m ''figA'' =
     (if filter (figure_with ''figA'') (nodes t) = [] then Some Empty
      else Some (Figure (annotate (last (filter (figure_with ''figA'') (nodes t))))))"
    using map_of_foldl_bind_figure [OF _ key, of "nodes (annotate t)"] reg
    by (simp add: nodes_annotate filter_figure_annotate last_map)
  have one: "map_of ?m ''figA'' = Some (Figure (nodes (annotate t) ! i))"
    if "i < length (nodes t)" "figure_with ''figA'' (nodes t ! i)"
       "\<forall>j<length (nodes t). figure_with ''figA'' (nodes t ! j) \<longrightarrow> j = i" for i
  proof -
    have "filter (figure_with ''figA'') (nodes t) = [nodes t ! i]"
      using that by (rule filter_only_index)
    with val that(1) show ?thesis by (simp add: nodes_annotate)
  qed
  have none: "map_of ?m ''figA'' = Some Empty" if "\<forall>g\<in>set (nodes t). \<not> figure_with ''figA'' g"
    using that val by (simp add: filter_empty_conv)
  have len: "length (nodes (annotate t)) = length (nodes t)"
    by (simp add: nodes_annotate)
  have same: "figure_with ''figA'' (nodes (annotate t) ! i)"
    if "i < length (nodes t)" "figure_with ''figA'' (nodes t ! i)" for i
    using that by (simp add: nodes_annotate)
  from run len one none same show ?thesis
    by blast
qed

theorem places_binds_figA_witness:
  "(\<exists>t' m. places (document [raw_node (directive ''figA''), figure_node ''figA'']) = Inr (t', m) \<and>
       nodes t' ! 3 = figure_node ''figA'' \<and>
       map_of m ''figA'' = Some (Figure (figure_node ''figA''))) \<and>
   (\<exists>t' m. places (document [raw_node (directive ''figA'')]) = Inr (t', m) \<and>
       map_of m ''figA'' = Some Empty)"
proof
  let ?t = "document [raw_node (directive ''figA''), figure_node ''figA'']"
  let ?r = "raw_node (directive ''figA'')"
  have ns: "nodes ?t = [?t, ?r, text_node (directive ''figA''), figure_node ''figA'']"
    by (rule nodes_example)
  have wf: "\<forall>g\<in>set (nodes ?t). raw_tex g \<longrightarrow> raw_text g \<noteq> None"
    unfolding ns
    by (simp add: raw_tex_def raw_text_def document_def raw_node_def text_node_def
        figure_node_def getPropertyValue_def)
  have r: "?r \<in> set (nodes ?t)"
    by (simp add: ns)
  have r': "raw_tex ?r" "raw_text ?r = Some (directive ''figA'')"
    by (simp_all add: raw_tex_def raw_text_def raw_node_def text_node_def getPropertyValue_def)
  have fig: "figure_with ''figA'' (nodes ?t ! 3)"
    unfolding ns by (simp add: figure_with_def figure_node_def getPropertyValue_def)
  have only: "\<forall>j<length (nodes ?t). figure_with ''figA'' (nodes ?t ! j) \<longrightarrow> j = 3"
    unfolding ns
    by (simp add: figure_with_def figure_node_def document_def raw_node_def text_node_def
        getPropertyValue_def nth_Cons' less_Suc_eq numeral_eq_Suc)
  from places_binds_figA [OF wf r r'] obtain t' m where run: "places ?t = Inr (t', m)"
    and bound: "\<forall>i<length (nodes ?t).
              figure_with ''figA'' (nodes ?t ! i) \<and>
              (\<forall>j<length (nodes ?t). figure_with ''figA'' (nodes ?t ! j) \<longrightarrow> j = i)
              \<longrightarrow> map_of m ''figA'' = Some (Figure (nodes t' ! i)) \<and>
                  figure_with ''figA'' (nodes t' ! i)"
    by blast
  have "3 < length (nodes ?t)" by (simp add: ns)
  with bound fig only have m: "map_of m ''figA'' = Some (Figure (nodes t' ! 3))"
    by blast
  have "places ?t = Inr (annotate ?t, resolved ?t)"
    using run by (simp add: places_alt split: if_splits)
  with run have "t' = annotate ?t" by simp
  then have "nodes t' ! 3 = annotate (figure_node ''figA'')"
    by (simp add: nodes_annotate ns)
  then have "nodes t' ! 3 = figure_node ''figA''"
    by (simp add: figure_node_def marked_def place_of_def)
  with run m show "\<exists>t' m. places ?t = Inr (t', m) \<and> nodes t' ! 3 = figure_node ''figA'' \<and>
       map_of m ''figA'' = Some (Figure (figure_node ''figA''))"
    by auto
next
  let ?t = "document [raw_node (directive ''figA'')]"
  let ?r = "raw_node (directive ''figA'')"
  have ns: "nodes ?t = [?t, ?r, text_node (directive ''figA'')]"
    by (simp add: document_def raw_node_def text_node_def)
  have wf: "\<forall>g\<in>set (nodes ?t). raw_tex g \<longrightarrow> raw_text g \<noteq> None"
    unfolding ns
    by (simp add: raw_tex_def raw_text_def document_def raw_node_def text_node_def
        getPropertyValue_def)
  have r: "?r \<in> set (nodes ?t)"
    by (simp add: ns)
  have r': "raw_tex ?r" "raw_text ?r = Some (directive ''figA'')"
    by (simp_all add: raw_tex_def raw_text_def raw_node_def text_node_def getPropertyValue_def)
  have nofig: "\<forall>g\<in>set (nodes ?t). \<not> figure_with ''figA'' g"
    unfolding ns
    by (simp add: figure_with_def document_def raw_node_def text_node_def)
  from places_binds_figA [OF wf r r'] nofig
  show "\<exists>t' m. places ?t = Inr (t', m) \<and> map_of m ''figA'' = Some Empty"
    by blast
qed

text \<open>
  C7. Place resolution is idempotent: when \<^verbatim>\<open>places\<close> returns on a tree, running it
  again on the tree it has left behind, with the \<^verbatim>\<open>place\<close> properties set, returns the same
  tree and the same map.
\<close>

theorem places_idempotent:
  assumes "places t = Inr (t', m)"
  shows "places t' = Inr (t', m)"
proof -
  have sc: "scannable t"
    using assms by (simp add: places_alt split: if_splits)
  then have t': "t' = annotate t" and m: "m = resolved t"
    using assms by (simp_all add: places_alt)
  have "scannable (annotate t)"
    using sc by (simp add: scannable_iff nodes_annotate)
  then show ?thesis
    by (simp add: t' m places_alt resolved_annotate)
qed

theorem places_idempotent_witness:
  "places (document [Node ''raw'' [(''format'', ''tex''), (''place'', ''figA'')] []
                     [text_node (directive ''figA'')] None, figure_node ''figA'']) =
     Inr (document [Node ''raw'' [(''format'', ''tex''), (''place'', ''figA'')] []
                     [text_node (directive ''figA'')] None, figure_node ''figA''],
          [(''figA'', Figure (figure_node ''figA''))])"
  using places_idempotent [OF places_example] .

section \<open>What a run writes and runs\<close>

lemma writes_append [simp]: "writes (a @ b) = writes a @ writes b"
  by (simp add: writes_def)

lemma compiler_runs_append [simp]: "compiler_runs (a @ b) = compiler_runs a @ compiler_runs b"
  by (simp add: compiler_runs_def)

lemma writes_Nil [simp]: "writes [] = []"
  by (simp add: writes_def)

lemma compiler_runs_Nil [simp]: "compiler_runs [] = []"
  by (simp add: compiler_runs_def)

lemma writes_Cons [simp]: "writes (e # tr) = written e @ writes tr"
  by (simp add: writes_def)

lemma compiler_runs_Cons [simp]:
  "compiler_runs (e # tr) = (if is_compiler_run e then e # compiler_runs tr else compiler_runs tr)"
  by (simp add: compiler_runs_def)

lemma issue_fst [simp]: "fst (issue E op tr) = succeeds E tr op"
  by (simp add: issue_def)

lemma issue_snd [simp]: "snd (issue E op tr) = tr @ [Did op (succeeds E tr op)]"
  by (simp add: issue_def)

lemma issue_eq: "issue E op tr = (ok, tr') \<longleftrightarrow> ok = succeeds E tr op \<and> tr' = tr @ [Did op ok]"
  by (auto simp: issue_def)

lemma silentI:
  "(\<And>tr. writes (snd (m tr)) = writes tr) \<Longrightarrow> (\<And>tr. compiler_runs (snd (m tr)) = compiler_runs tr) \<Longrightarrow> silent m"
  by (simp add: silent_def)

lemma silent_writes: "silent m \<Longrightarrow> writes (snd (m tr)) = writes tr"
  by (simp add: silent_def)

lemma silent_runs: "silent m \<Longrightarrow> compiler_runs (snd (m tr)) = compiler_runs tr"
  by (simp add: silent_def)

lemma silent_pure [simp]: "silent (pure_step r)"
  by (simp add: silent_def pure_step_def)

lemma silent_and_then:
  assumes "silent m" "\<And>x. silent (f x)"
  shows "silent (and_then m f)"
proof (rule silentI)
  fix tr
  obtain r tr' where m: "m tr = (r, tr')" by (cases "m tr")
  have w: "writes tr' = writes tr" and c: "compiler_runs tr' = compiler_runs tr"
    using silent_writes [OF assms(1), of tr] silent_runs [OF assms(1), of tr] m by simp_all
  show "writes (snd (and_then m f tr)) = writes tr"
    using m w silent_writes [OF assms(2)] by (cases r) (simp_all add: and_then_def)
  show "compiler_runs (snd (and_then m f tr)) = compiler_runs tr"
    using m c silent_runs [OF assms(2)] by (cases r) (simp_all add: and_then_def)
qed

lemma readFile_snd [simp]: "snd (readFile E path tr) = tr @ [Did (ReadFile path) (succeeds E tr (ReadFile path))]"
  by (simp add: readFile_def issue_def split: bool.splits)

lemma readFile_fst:
  "fst (readFile E path tr) =
     (if succeeds E tr (ReadFile path) then Inr (file_text E tr path) else Inl (Rejected (ReadFile path)))"
  by (simp add: readFile_def issue_def split: bool.splits)

lemma silent_readFile [simp]: "silent (readFile E path)"
  by (rule silentI) simp_all

lemma silent_loadTemplate [simp]: "silent (loadTemplate E dir)"
  unfolding loadTemplate_def by (intro silent_and_then silent_readFile silent_pure)

lemma silent_resolveTemplate [simp]: "silent (resolveTemplate E ident)"
proof (rule silentI)
  fix tr
  obtain r tr' where l: "loadTemplate E ident tr = (r, tr')" by (cases "loadTemplate E ident tr")
  have 1: "writes tr' = writes tr" "compiler_runs tr' = compiler_runs tr"
    using silent_writes [OF silent_loadTemplate, of E ident tr]
      silent_runs [OF silent_loadTemplate, of E ident tr] l by simp_all
  show "writes (snd (resolveTemplate E ident tr)) = writes tr"
    using l 1 silent_writes [OF silent_loadTemplate, of E "builtin_dir E ident" tr']
    by (cases r) (simp_all add: resolveTemplate_def)
  show "compiler_runs (snd (resolveTemplate E ident tr)) = compiler_runs tr"
    using l 1 silent_runs [OF silent_loadTemplate, of E "builtin_dir E ident" tr']
    by (cases r) (simp_all add: resolveTemplate_def)
qed

lemma silent_readTemplate [simp]: "silent (readTemplate E pkg)"
  by (simp add: readTemplate_def split: option.splits)

lemma make_dirs_snd [simp]:
  "snd (make_dirs E odir ldir tr) =
     tr @ [Did (Mkdirp odir) (succeeds E tr (Mkdirp odir)),
           Did (Mkdirp ldir) (succeeds E (tr @ [Did (Mkdirp odir) (succeeds E tr (Mkdirp odir))]) (Mkdirp ldir))]"
  by (simp add: make_dirs_def mkdirp_def issue_def)

lemma silent_make_dirs [simp]: "silent (make_dirs E odir ldir)"
  by (rule silentI) simp_all

lemma silent_prepare [simp]: "silent (prepare E ast ctx opts)"
  unfolding prepare_def
  by (intro silent_and_then silent_make_dirs silent_pure silent_resolveTemplate silent_readTemplate)
    (simp_all add: split_def Let_def silent_and_then)

lemma promise_all_Inr: "promise_all ps = Inr u \<longleftrightarrow> (\<forall>p\<in>set ps. snd p \<noteq> Some False)"
  by (induction ps rule: promise_all.induct) auto

lemma copy_files_snd:
  "\<exists>evs. snd (copy_files E dir ldir fs tr) = tr @ evs \<and> writes evs = [] \<and> compiler_runs evs = []"
proof (induction fs arbitrary: tr)
  case Nil
  then show ?case by simp
next
  case (Cons f fs)
  let ?c = "Copy (path_join E dir f) (path_join E ldir (path_base E f))"
  let ?tr1 = "tr @ [Did ?c (succeeds E tr ?c)]"
  from Cons [of ?tr1] obtain evs where
    evs: "snd (copy_files E dir ldir fs ?tr1) = ?tr1 @ evs" "writes evs = []" "compiler_runs evs = []"
    by blast
  have "snd (copy_files E dir ldir (f # fs) tr) = snd (copy_files E dir ldir fs ?tr1)"
    by (simp add: copy_def issue_def split: prod.splits)
  with evs have "snd (copy_files E dir ldir (f # fs) tr) = tr @ (Did ?c (succeeds E tr ?c) # evs)"
    by simp
  moreover have "writes (Did ?c (succeeds E tr ?c) # evs) = []"
    "compiler_runs (Did ?c (succeeds E tr ?c) # evs) = []"
    using evs by simp_all
  ultimately show ?case by blast
qed

lemma writeFile_snd:
  "snd (writeFile E path d tr) =
     (if truthy d then tr @ [Did (WriteFile path (the d)) (succeeds E tr (WriteFile path (the d)))] else tr)"
  by (simp add: writeFile_def issue_def)

lemma writeFile_fst:
  "fst (writeFile E path d tr) =
     (if truthy d then Some (succeeds E tr (WriteFile path (the d))) else None)"
  by (simp add: writeFile_def issue_def)

lemma write_outputs_snd:
  "snd (write_outputs E ldir a src bt pkg tr) =
     snd (copy_files E (pkg_dir pkg) ldir (case pkg_files pkg of None \<Rightarrow> [] | Some fs \<Rightarrow> fs)
            (after_writes E ldir a src bt tr))"
  by (simp add: write_outputs_def after_writes_def split: prod.splits option.splits)

lemma after_writes_writes:
  "writes (after_writes E ldir a src bt tr) =
     writes tr @ (if src \<noteq> [] then [(path_join E ldir (a @ ''.tex''), src)] else [])
       @ (case bt of None \<Rightarrow> []
          | Some b \<Rightarrow> if b \<noteq> [] then [(path_join E ldir (a @ ''.bib''), b)] else [])"
  by (simp add: after_writes_def writeFile_snd truthy_def split: option.splits)

lemma after_writes_runs: "compiler_runs (after_writes E ldir a src bt tr) = compiler_runs tr"
  by (simp add: after_writes_def writeFile_snd truthy_def split: option.splits)

lemma write_outputs_writes:
  "writes (snd (write_outputs E ldir a src bt pkg tr)) =
     writes tr @ (if src \<noteq> [] then [(path_join E ldir (a @ ''.tex''), src)] else [])
       @ (case bt of None \<Rightarrow> []
          | Some b \<Rightarrow> if b \<noteq> [] then [(path_join E ldir (a @ ''.bib''), b)] else [])"
proof -
  obtain evs where "snd (write_outputs E ldir a src bt pkg tr) = after_writes E ldir a src bt tr @ evs"
    "writes evs = []"
    using copy_files_snd [of E "pkg_dir pkg" ldir _ "after_writes E ldir a src bt tr"]
    unfolding write_outputs_snd by blast
  then show ?thesis by (simp add: after_writes_writes)
qed

lemma write_outputs_runs:
  "compiler_runs (snd (write_outputs E ldir a src bt pkg tr)) = compiler_runs tr"
proof -
  obtain evs where "snd (write_outputs E ldir a src bt pkg tr) = after_writes E ldir a src bt tr @ evs"
    "compiler_runs evs = []"
    using copy_files_snd [of E "pkg_dir pkg" ldir _ "after_writes E ldir a src bt tr"]
    unfolding write_outputs_snd by blast
  then show ?thesis by (simp add: after_writes_runs)
qed

lemma write_outputs_done:
  assumes "write_outputs E ldir a src bt pkg tr = (Inr u, tr')"
  shows "src \<noteq> [] \<Longrightarrow> Did (WriteFile (path_join E ldir (a @ ''.tex'')) src) True \<in> set tr'"
    and "bt = Some b \<Longrightarrow> b \<noteq> [] \<Longrightarrow> Did (WriteFile (path_join E ldir (a @ ''.bib'')) b) True \<in> set tr'"
proof -
  let ?tex = "path_join E ldir (a @ ''.tex'')"
  let ?bib = "path_join E ldir (a @ ''.bib'')"
  let ?aw = "after_writes E ldir a src bt tr"
  obtain evs where tr': "tr' = ?aw @ evs"
    using copy_files_snd [of E "pkg_dir pkg" ldir _ ?aw] assms
      write_outputs_snd [of E ldir a src bt pkg tr] by auto
  obtain r1 tr1 where w1: "writeFile E ?tex (Some src) tr = (r1, tr1)"
    by (cases "writeFile E ?tex (Some src) tr")
  have r1: "r1 \<noteq> Some False"
    using assms w1 by (auto simp: write_outputs_def promise_all_Inr split: prod.splits option.splits)
  show "Did (WriteFile ?tex src) True \<in> set tr'" if "src \<noteq> []"
  proof -
    have "r1 = Some (succeeds E tr (WriteFile ?tex src))"
      and "tr1 = tr @ [Did (WriteFile ?tex src) (succeeds E tr (WriteFile ?tex src))]"
      using w1 that writeFile_fst [of E ?tex "Some src" tr] writeFile_snd [of E ?tex "Some src" tr]
      by (simp_all add: truthy_def)
    with r1 have "Did (WriteFile ?tex src) True \<in> set tr1" by simp
    moreover have "set tr1 \<subseteq> set ?aw"
      using w1 by (auto simp: after_writes_def writeFile_snd split: option.splits)
    ultimately show ?thesis using tr' by auto
  qed
  show "Did (WriteFile ?bib b) True \<in> set tr'" if "bt = Some b" "b \<noteq> []"
  proof -
    obtain r2 tr2 where w2: "writeFile E ?bib (Some b) tr1 = (r2, tr2)"
      by (cases "writeFile E ?bib (Some b) tr1")
    have "r2 \<noteq> Some False"
      using assms w1 w2 that(1)
      by (auto simp: write_outputs_def promise_all_Inr split: prod.splits)
    moreover have "r2 = Some (succeeds E tr1 (WriteFile ?bib b))"
      and "tr2 = tr1 @ [Did (WriteFile ?bib b) (succeeds E tr1 (WriteFile ?bib b))]"
      using w2 that writeFile_fst [of E ?bib "Some b" tr1] writeFile_snd [of E ?bib "Some b" tr1]
      by (simp_all add: truthy_def)
    ultimately have "Did (WriteFile ?bib b) True \<in> set tr2" by simp
    moreover have "?aw = tr2"
      using w1 w2 that(1) by (simp add: after_writes_def)
    ultimately show ?thesis using tr' by auto
  qed
qed

lemma emit_eq:
  "emit E ast ctx opts tr =
     (case prepare E ast ctx opts tr of
        (Inl e, tr1) \<Rightarrow> (Inl e, tr1)
      | (Inr p, tr1) \<Rightarrow>
          (case write_outputs E (opt_latexDir E ctx opts) (articleName E ctx)
                  (p_source p) (p_bibtext p) (p_package p) tr1 of
             (Inl e, tr2) \<Rightarrow> (Inl e, tr2)
           | (Inr u, tr2) \<Rightarrow> (Inr p, tr2)))"
  by (simp add: emit_def and_then_def pure_step_def split: prod.splits sum.splits)

lemma emit_runs: "compiler_runs (snd (emit E ast ctx opts tr)) = compiler_runs tr"
proof -
  obtain r tr1 where p: "prepare E ast ctx opts tr = (r, tr1)"
    by (cases "prepare E ast ctx opts tr")
  have 1: "compiler_runs tr1 = compiler_runs tr"
    using silent_runs [OF silent_prepare, of E ast ctx opts tr] p by simp
  show ?thesis
  proof (cases r)
    case (Inl e)
    with p 1 show ?thesis by (simp add: emit_eq)
  next
    case (Inr q)
    have "snd (emit E ast ctx opts tr) =
        snd (write_outputs E (opt_latexDir E ctx opts) (articleName E ctx)
               (p_source q) (p_bibtext q) (p_package q) tr1)"
      using p Inr by (simp add: emit_eq split: prod.splits sum.splits)
    with 1 show ?thesis by (simp add: write_outputs_runs)
  qed
qed

lemma emit_writes:
  "writes (snd (emit E ast ctx opts tr)) =
     writes tr @
     (case fst (prepare E ast ctx opts tr) of
        Inl e \<Rightarrow> []
      | Inr p \<Rightarrow> source_write E ctx opts (p_source p) @ bib_write E ctx opts (p_bibtext p))"
proof -
  obtain r tr1 where p: "prepare E ast ctx opts tr = (r, tr1)"
    by (cases "prepare E ast ctx opts tr")
  have 1: "writes tr1 = writes tr"
    using silent_writes [OF silent_prepare, of E ast ctx opts tr] p by simp
  show ?thesis
  proof (cases r)
    case (Inl e)
    with p 1 show ?thesis by (simp add: emit_eq)
  next
    case (Inr q)
    have "snd (emit E ast ctx opts tr) =
        snd (write_outputs E (opt_latexDir E ctx opts) (articleName E ctx)
               (p_source q) (p_bibtext q) (p_package q) tr1)"
      using p Inr by (simp add: emit_eq split: prod.splits sum.splits)
    with 1 p Inr show ?thesis
      by (simp add: write_outputs_writes source_write_def bib_write_def)
  qed
qed

lemma emit_Inr:
  assumes "emit E ast ctx opts tr = (Inr p, tr')"
  shows "\<exists>tr1. prepare E ast ctx opts tr = (Inr p, tr1) \<and>
           write_outputs E (opt_latexDir E ctx opts) (articleName E ctx)
             (p_source p) (p_bibtext p) (p_package p) tr1 = (Inr (), tr')"
  using assms by (auto simp: emit_eq split: prod.splits sum.splits)

lemma typeset_off:
  "\<not> opt_pdf opts \<Longrightarrow> typeset E ctx opts tr = (Returned (Some (opt_latexDir E ctx opts)), tr)"
  by (simp add: typeset_def)

lemma typeset_failure:
  assumes "opt_pdf opts"
    and "\<not> succeeds E (tr @ [LogDebug (''Running pdflatex for '' @ articleName E ctx @ ''.tex'')])
            (Pdflatex (opt_latexDir E ctx opts) (articleName E ctx) (has_bibtex ctx))"
  shows "typeset E ctx opts tr =
     (Returned None,
      tr @ [LogDebug (''Running pdflatex for '' @ articleName E ctx @ ''.tex''),
            Did (Pdflatex (opt_latexDir E ctx opts) (articleName E ctx) (has_bibtex ctx)) False,
            LogError ''Compiling latex PDF''
              (Rejected (Pdflatex (opt_latexDir E ctx opts) (articleName E ctx) (has_bibtex ctx)))])"
  using assms by (simp add: typeset_def pdflatex_def issue_def Let_def)

lemma typeset_writes: "writes (snd (typeset E ctx opts tr)) = writes tr"
  by (simp add: typeset_def pdflatex_def copy_def issue_def Let_def split: bool.splits)

lemma compile_eq:
  "compile E ast ctx opts =
     (case emit E ast ctx opts [] of
        (Inl e, tr) \<Rightarrow> (Threw e, tr)
      | (Inr p, tr) \<Rightarrow> typeset E ctx opts tr)"
  by (simp add: compile_def)

lemma compile_writes: "writes (snd (compile E ast ctx opts)) = writes (snd (emit E ast ctx opts []))"
  by (simp add: compile_def typeset_writes split: prod.splits sum.splits)

lemma has_bibtex_entries: "has_bibtex ctx \<longleftrightarrow> bibtex_entries ctx \<noteq> []"
  by (simp add: has_bibtex_def bibtex_entries_def split: option.splits)

lemma bibtex_set_block [simp]: "bibtex (set_block d k v) = bibtex d"
  by (simp add: set_block_def)

lemma extract_all_bibtex: "extract_all cs tex d = Inr d' \<Longrightarrow> bibtex d' = bibtex d"
  by (induction cs arbitrary: d) (auto split: sum.splits option.splits)

lemma prepare_Inr:
  assumes "prepare E ast ctx opts tr = (Inr p, tr')"
  shows "\<exists>ast' pm. places ast = Inr (ast', pm) \<and>
           extract_all (getChildren ast') (make_format E ctx opts pm)
             (marshal E (make_format E ctx opts pm) ast' ctx opts) = Inr (p_data p) \<and>
           p_bibtext p =
             (if has_bibtex ctx
              then Some (tex_string (make_format E ctx opts pm)
                           (join (bibtex_entries ctx) [CHR 0x0A, CHR 0x0A]))
              else None)"
  using assms
  by (fastforce simp: prepare_def and_then_def pure_step_def Let_def split: prod.splits sum.splits)

section \<open>Concrete runs\<close>

lemmas run_defs =
  compile_def emit_def prepare_def typeset_def and_then_def pure_step_def make_dirs_def
  mkdirp_def copy_def pdflatex_def issue_def readFile_def writeFile_def truthy_def
  write_outputs_def readTemplate_def resolveTemplate_def loadTemplate_def
  opt_latexDir_def opt_pdf_def opt_template_def opt_tags_def opt_vspace_def articleName_def
  has_bibtex_def bibtex_entries_def marshal_def make_format_def getChildren_def
  places_def scan_place_def getPropertyValue_def document_def
  test_env_def test_context_def default_options_def pdf_off_def plain_format_def
  is_pdflatex_def is_read_def never_def primary_missing_def manifest_text_def Let_def

lemma run_failed_compiler:
  "\<exists>p. emit (test_env is_pdflatex ''x'') (document []) test_context default_options [] =
     (Inr p,
      [Did (Mkdirp ''out'') True, Did (Mkdirp ''tmp/latex'') True,
       Did (ReadFile ''article/package.json'') True,
       Did (ReadFile ''article/template.tex'') True,
       Did (WriteFile ''tmp/latex/paper.tex'' ''x'') True])"
  by (simp add: run_defs)

section \<open>Properties of the compilation\<close>

text \<open>
  C3. Take a run with \<^verbatim>\<open>pdf\<close> requested that reaches the \<^verbatim>\<open>pdf\<close> test (nothing before it
  has thrown) and in which the typesetting compiler fails. Then the function logs the
  error and returns no result; it does not throw. By then the rendered source has been
  written to the working directory if it is not empty, and so has the bibliography when
  there are entries and their escaped text is not empty. A text that is empty is never
  written: \<^verbatim>\<open>writeFile\<close> skips falsy data, so the claim as stated, that the source file is
  always on disk, fails for a template that renders to the empty string.
\<close>

theorem compiler_failure_absorbed:
  assumes "emit E ast ctx opts [] = (Inr p, tr)"
    and "opt_pdf opts"
    and "\<not> succeeds E (tr @ [LogDebug (''Running pdflatex for '' @ articleName E ctx @ ''.tex'')])
            (Pdflatex (opt_latexDir E ctx opts) (articleName E ctx) (has_bibtex ctx))"
  shows "compile E ast ctx opts =
           (Returned None,
            tr @ [LogDebug (''Running pdflatex for '' @ articleName E ctx @ ''.tex''),
                  Did (Pdflatex (opt_latexDir E ctx opts) (articleName E ctx) (has_bibtex ctx)) False,
                  LogError ''Compiling latex PDF''
                    (Rejected (Pdflatex (opt_latexDir E ctx opts) (articleName E ctx)
                       (has_bibtex ctx)))]) \<and>
         (p_source p \<noteq> [] \<longrightarrow>
            Did (WriteFile (path_join E (opt_latexDir E ctx opts) (articleName E ctx @ ''.tex''))
                   (p_source p)) True \<in> set tr) \<and>
         (has_bibtex ctx \<longrightarrow>
            (\<exists>b. p_bibtext p = Some b \<and>
               (b \<noteq> [] \<longrightarrow>
                  Did (WriteFile (path_join E (opt_latexDir E ctx opts) (articleName E ctx @ ''.bib''))
                         b) True \<in> set tr)))"
proof (intro conjI impI)
  show "compile E ast ctx opts =
           (Returned None,
            tr @ [LogDebug (''Running pdflatex for '' @ articleName E ctx @ ''.tex''),
                  Did (Pdflatex (opt_latexDir E ctx opts) (articleName E ctx) (has_bibtex ctx)) False,
                  LogError ''Compiling latex PDF''
                    (Rejected (Pdflatex (opt_latexDir E ctx opts) (articleName E ctx)
                       (has_bibtex ctx)))])"
    using assms(1) typeset_failure [OF assms(2,3)] by (simp add: compile_eq)
  from emit_Inr [OF assms(1)] obtain tr1 where
    prep: "prepare E ast ctx opts [] = (Inr p, tr1)" and
    wr: "write_outputs E (opt_latexDir E ctx opts) (articleName E ctx)
             (p_source p) (p_bibtext p) (p_package p) tr1 = (Inr (), tr)"
    by blast
  show "Did (WriteFile (path_join E (opt_latexDir E ctx opts) (articleName E ctx @ ''.tex''))
                   (p_source p)) True \<in> set tr" if "p_source p \<noteq> []"
    using write_outputs_done(1) [OF wr that] .
  show "\<exists>b. p_bibtext p = Some b \<and>
               (b \<noteq> [] \<longrightarrow>
                  Did (WriteFile (path_join E (opt_latexDir E ctx opts) (articleName E ctx @ ''.bib''))
                         b) True \<in> set tr)" if "has_bibtex ctx"
  proof -
    from prepare_Inr [OF prep] that obtain b where b: "p_bibtext p = Some b"
      by auto
    then show ?thesis
      using write_outputs_done(2) [OF wr b] by blast
  qed
qed

theorem compiler_failure_absorbed_witness:
  "compile (test_env is_pdflatex ''x'') (document []) test_context default_options =
     (Returned None,
      [Did (Mkdirp ''out'') True, Did (Mkdirp ''tmp/latex'') True,
       Did (ReadFile ''article/package.json'') True,
       Did (ReadFile ''article/template.tex'') True,
       Did (WriteFile ''tmp/latex/paper.tex'' ''x'') True,
       LogDebug ''Running pdflatex for paper.tex'',
       Did (Pdflatex ''tmp/latex'' ''paper'' False) False,
       LogError ''Compiling latex PDF'' (Rejected (Pdflatex ''tmp/latex'' ''paper'' False))])"
proof -
  let ?E = "test_env is_pdflatex ''x''"
  from run_failed_compiler obtain p where
    run: "emit ?E (document []) test_context default_options [] =
     (Inr p,
      [Did (Mkdirp ''out'') True, Did (Mkdirp ''tmp/latex'') True,
       Did (ReadFile ''article/package.json'') True,
       Did (ReadFile ''article/template.tex'') True,
       Did (WriteFile ''tmp/latex/paper.tex'' ''x'') True])"
    by blast
  have on: "opt_pdf default_options"
    by (simp add: opt_pdf_def default_options_def)
  have failing: "\<not> succeeds ?E
      ([Did (Mkdirp ''out'') True, Did (Mkdirp ''tmp/latex'') True,
        Did (ReadFile ''article/package.json'') True,
        Did (ReadFile ''article/template.tex'') True,
        Did (WriteFile ''tmp/latex/paper.tex'' ''x'') True]
       @ [LogDebug (''Running pdflatex for '' @ articleName ?E test_context @ ''.tex'')])
      (Pdflatex (opt_latexDir ?E test_context default_options) (articleName ?E test_context)
         (has_bibtex test_context))"
    by (simp add: test_env_def is_pdflatex_def)
  from compiler_failure_absorbed [OF run on failing]
  show ?thesis
    by (simp add: test_env_def test_context_def default_options_def opt_latexDir_def opt_pdf_def
        articleName_def has_bibtex_def)
qed

text \<open>
  The run that refutes C3 as stated: the template file is empty, the compiler is invoked
  and fails, the function returns nothing, and the history holds no write at all.
\<close>

theorem compiler_failure_without_source:
  "compile (test_env is_pdflatex []) (document []) test_context default_options =
     (Returned None,
      [Did (Mkdirp ''out'') True, Did (Mkdirp ''tmp/latex'') True,
       Did (ReadFile ''article/package.json'') True,
       Did (ReadFile ''article/template.tex'') True,
       LogDebug ''Running pdflatex for paper.tex'',
       Did (Pdflatex ''tmp/latex'' ''paper'' False) False,
       LogError ''Compiling latex PDF'' (Rejected (Pdflatex ''tmp/latex'' ''paper'' False))])"
  by (simp add: run_defs)

text \<open>
  C4. With \<^verbatim>\<open>pdf: false\<close> the typesetting compiler is never invoked, and the function
  returns the working directory (\<^verbatim>\<open>latexDir\<close>, by default the directory \<^verbatim>\<open>latex\<close> under
  the output directory) on every run that reaches the \<^verbatim>\<open>pdf\<close> test. A run in which an
  earlier step throws (directory creation, the place scan, the special sections, template
  resolution, the template read, the writes and copies) throws that error instead, so the
  claim as stated, that every input with \<^verbatim>\<open>pdf: false\<close> returns the directory, fails.
\<close>

theorem pdf_off_returns_latexDir:
  assumes "pdf opts = Some False"
  shows "compiler_runs (snd (compile E ast ctx opts)) = [] \<and>
         (\<forall>p tr. emit E ast ctx opts [] = (Inr p, tr) \<longrightarrow>
            compile E ast ctx opts = (Returned (Some (opt_latexDir E ctx opts)), tr)) \<and>
         (\<forall>e tr. emit E ast ctx opts [] = (Inl e, tr) \<longrightarrow>
            compile E ast ctx opts = (Threw e, tr)) \<and>
         opt_latexDir E ctx opts =
           (case latexDir opts of None \<Rightarrow> path_join E (outputDir ctx) ''latex'' | Some d \<Rightarrow> d)"
proof -
  have off: "\<not> opt_pdf opts"
    using assms by (simp add: opt_pdf_def)
  have "compiler_runs (snd (compile E ast ctx opts)) = compiler_runs (snd (emit E ast ctx opts []))"
    using off by (simp add: compile_eq typeset_off split: prod.splits sum.splits)
  then have "compiler_runs (snd (compile E ast ctx opts)) = []"
    by (simp add: emit_runs)
  then show ?thesis
    using off by (simp add: compile_eq typeset_off opt_latexDir_def)
qed

theorem pdf_off_returns_latexDir_witness:
  "compile (test_env never ''x'') (document []) test_context pdf_off =
     (Returned (Some ''out/latex''),
      [Did (Mkdirp ''out'') True, Did (Mkdirp ''out/latex'') True,
       Did (ReadFile ''article/package.json'') True,
       Did (ReadFile ''article/template.tex'') True,
       Did (WriteFile ''out/latex/paper.tex'' ''x'') True]) \<and>
   compiler_runs (snd (compile (test_env never ''x'') (document []) test_context pdf_off)) = []"
proof -
  let ?E = "test_env never ''x''"
  have off: "pdf pdf_off = Some False"
    by (simp add: pdf_off_def)
  have "\<exists>p. emit ?E (document []) test_context pdf_off [] =
     (Inr p,
      [Did (Mkdirp ''out'') True, Did (Mkdirp ''out/latex'') True,
       Did (ReadFile ''article/package.json'') True,
       Did (ReadFile ''article/template.tex'') True,
       Did (WriteFile ''out/latex/paper.tex'' ''x'') True])"
    by (simp add: run_defs)
  then obtain p where run: "emit ?E (document []) test_context pdf_off [] =
     (Inr p,
      [Did (Mkdirp ''out'') True, Did (Mkdirp ''out/latex'') True,
       Did (ReadFile ''article/package.json'') True,
       Did (ReadFile ''article/template.tex'') True,
       Did (WriteFile ''out/latex/paper.tex'' ''x'') True])"
    by blast
  have dir: "opt_latexDir ?E test_context pdf_off = ''out/latex''"
    by (simp add: opt_latexDir_def opt_pdf_def pdf_off_def test_env_def test_context_def)
  from pdf_off_returns_latexDir [OF off, of ?E "document []" test_context] run dir
  show ?thesis by simp
qed

text \<open>
  The run that refutes C4 as stated: \<^verbatim>\<open>pdf\<close> is false, no manifest can be read, and the
  function throws the rejection of the fallback read.
\<close>

theorem pdf_off_template_missing:
  "compile (test_env is_read ''x'') (document []) test_context pdf_off =
     (Threw (Rejected (ReadFile ''builtin/article/package.json'')),
      [Did (Mkdirp ''out'') True, Did (Mkdirp ''out/latex'') True,
       Did (ReadFile ''article/package.json'') False,
       Did (ReadFile ''builtin/article/package.json'') False])"
  by (simp add: run_defs)

lemma loadTemplate_eq:
  "loadTemplate E dir tr =
     (let path = path_join E dir ''package.json'';
          ok = succeeds E tr (ReadFile path);
          tr1 = tr @ [Did (ReadFile path) ok]
      in if \<not> ok then (Inl (Rejected (ReadFile path)), tr1)
         else (case json_parse E (file_text E tr path) of
                 None \<Rightarrow> (Inl SyntaxError, tr1)
               | Some m \<Rightarrow>
                   (Inr \<lparr>pkg_template = pkg_template m, pkg_files = pkg_files m, pkg_dir = dir\<rparr>,
                    tr1)))"
  by (simp add: loadTemplate_def and_then_def pure_step_def readFile_def issue_def Let_def
      split: option.splits)

lemma prepare_template_failure:
  assumes "make_dirs E (outputDir ctx) (opt_latexDir E ctx opts) [] = (Inr (), tr0)"
    and "places ast = Inr (ast', pm)"
    and "extract_all (getChildren ast') (make_format E ctx opts pm)
           (marshal E (make_format E ctx opts pm) ast' ctx opts) = Inr d"
    and "resolveTemplate E (opt_template opts) tr0 = (Inl e, tr)"
  shows "compile E ast ctx opts = (Threw e, tr)"
  using assms
  by (simp add: compile_def emit_def prepare_def and_then_def pure_step_def Let_def)

text \<open>
  C5. \<^verbatim>\<open>resolveTemplate\<close> first reads the manifest \<^verbatim>\<open>package.json\<close> under the identifier
  itself, a path relative to the invoking context. When that read succeeds and the text
  parses, the result is that manifest with \<^verbatim>\<open>dir\<close> the identifier, and nothing else is
  read. Any failure of it, a rejected read or a text that does not parse, is absorbed and
  followed by exactly one more read, of the manifest in the built-in directory for the same
  identifier; the result of the call is then the result of that load, so its failure is
  the error of the call, with no third attempt. The compilation does not catch it: when the
  earlier steps have succeeded, it throws that error to its caller.
\<close>

theorem resolveTemplate_two_tier:
  "resolveTemplate E ident tr =
     (let path1 = path_join E ident ''package.json'';
          ok1 = succeeds E tr (ReadFile path1);
          tr1 = tr @ [Did (ReadFile path1) ok1]
      in case (if ok1 then json_parse E (file_text E tr path1) else None) of
           Some m \<Rightarrow>
             (Inr \<lparr>pkg_template = pkg_template m, pkg_files = pkg_files m, pkg_dir = ident\<rparr>, tr1)
         | None \<Rightarrow>
             (let dir = builtin_dir E ident;
                  path2 = path_join E dir ''package.json'';
                  ok2 = succeeds E tr1 (ReadFile path2);
                  tr2 = tr1 @ [Did (ReadFile path2) ok2]
              in if \<not> ok2 then (Inl (Rejected (ReadFile path2)), tr2)
                 else (case json_parse E (file_text E tr1 path2) of
                         None \<Rightarrow> (Inl SyntaxError, tr2)
                       | Some m \<Rightarrow>
                           (Inr \<lparr>pkg_template = pkg_template m, pkg_files = pkg_files m,
                                 pkg_dir = dir\<rparr>, tr2)))) \<and>
   (\<forall>tr0 ast' pm d e tr'.
      make_dirs E (outputDir ctx) (opt_latexDir E ctx opts) [] = (Inr (), tr0) \<and>
      places ast = Inr (ast', pm) \<and>
      extract_all (getChildren ast') (make_format E ctx opts pm)
        (marshal E (make_format E ctx opts pm) ast' ctx opts) = Inr d \<and>
      resolveTemplate E (opt_template opts) tr0 = (Inl e, tr')
      \<longrightarrow> compile E ast ctx opts = (Threw e, tr'))"
proof
  show "resolveTemplate E ident tr =
     (let path1 = path_join E ident ''package.json'';
          ok1 = succeeds E tr (ReadFile path1);
          tr1 = tr @ [Did (ReadFile path1) ok1]
      in case (if ok1 then json_parse E (file_text E tr path1) else None) of
           Some m \<Rightarrow>
             (Inr \<lparr>pkg_template = pkg_template m, pkg_files = pkg_files m, pkg_dir = ident\<rparr>, tr1)
         | None \<Rightarrow>
             (let dir = builtin_dir E ident;
                  path2 = path_join E dir ''package.json'';
                  ok2 = succeeds E tr1 (ReadFile path2);
                  tr2 = tr1 @ [Did (ReadFile path2) ok2]
              in if \<not> ok2 then (Inl (Rejected (ReadFile path2)), tr2)
                 else (case json_parse E (file_text E tr1 path2) of
                         None \<Rightarrow> (Inl SyntaxError, tr2)
                       | Some m \<Rightarrow>
                           (Inr \<lparr>pkg_template = pkg_template m, pkg_files = pkg_files m,
                                 pkg_dir = dir\<rparr>, tr2))))"
    by (simp add: resolveTemplate_def loadTemplate_eq Let_def split: option.splits)
  show "\<forall>tr0 ast' pm d e tr'.
      make_dirs E (outputDir ctx) (opt_latexDir E ctx opts) [] = (Inr (), tr0) \<and>
      places ast = Inr (ast', pm) \<and>
      extract_all (getChildren ast') (make_format E ctx opts pm)
        (marshal E (make_format E ctx opts pm) ast' ctx opts) = Inr d \<and>
      resolveTemplate E (opt_template opts) tr0 = (Inl e, tr')
      \<longrightarrow> compile E ast ctx opts = (Threw e, tr')"
    using prepare_template_failure by blast
qed

theorem resolveTemplate_two_tier_witness:
  "resolveTemplate (test_env is_read ''x'') ''article'' [] =
     (Inl (Rejected (ReadFile ''builtin/article/package.json'')),
      [Did (ReadFile ''article/package.json'') False,
       Did (ReadFile ''builtin/article/package.json'') False]) \<and>
   resolveTemplate (test_env never ''x'') ''article'' [] =
     (Inr \<lparr>pkg_template = Some ''template.tex'', pkg_files = None, pkg_dir = ''article''\<rparr>,
      [Did (ReadFile ''article/package.json'') True]) \<and>
   resolveTemplate (test_env primary_missing ''x'') ''article'' [] =
     (Inr \<lparr>pkg_template = Some ''template.tex'', pkg_files = None,
           pkg_dir = ''builtin/article''\<rparr>,
      [Did (ReadFile ''article/package.json'') False,
       Did (ReadFile ''builtin/article/package.json'') True]) \<and>
   compile (test_env is_read ''x'') (document []) test_context default_options =
     (Threw (Rejected (ReadFile ''builtin/article/package.json'')),
      [Did (Mkdirp ''out'') True, Did (Mkdirp ''tmp/latex'') True,
       Did (ReadFile ''article/package.json'') False,
       Did (ReadFile ''builtin/article/package.json'') False])"
proof (intro conjI)
  let ?E = "test_env is_read ''x''"
  note inst = resolveTemplate_two_tier [of ?E "''article''" "[]" test_context default_options "document []"]
  show "resolveTemplate ?E ''article'' [] =
     (Inl (Rejected (ReadFile ''builtin/article/package.json'')),
      [Did (ReadFile ''article/package.json'') False,
       Did (ReadFile ''builtin/article/package.json'') False])"
    using inst [THEN conjunct1] by (simp add: test_env_def is_read_def Let_def)
  have dirs: "make_dirs ?E (outputDir test_context) (opt_latexDir ?E test_context default_options) [] =
      (Inr (), [Did (Mkdirp ''out'') True, Did (Mkdirp ''tmp/latex'') True])"
    by (simp add: run_defs)
  have pl: "places (document []) = Inr (document [], [])"
    by (simp add: run_defs)
  have ex: "\<exists>d. extract_all (getChildren (document [])) (make_format ?E test_context default_options [])
        (marshal ?E (make_format ?E test_context default_options []) (document []) test_context
           default_options) = Inr d"
    by (simp add: getChildren_def document_def)
  have res: "resolveTemplate ?E (opt_template default_options)
       [Did (Mkdirp ''out'') True, Did (Mkdirp ''tmp/latex'') True] =
     (Inl (Rejected (ReadFile ''builtin/article/package.json'')),
      [Did (Mkdirp ''out'') True, Did (Mkdirp ''tmp/latex'') True,
       Did (ReadFile ''article/package.json'') False,
       Did (ReadFile ''builtin/article/package.json'') False])"
    by (simp add: run_defs)
  from inst dirs pl ex res
  show "compile ?E (document []) test_context default_options =
     (Threw (Rejected (ReadFile ''builtin/article/package.json'')),
      [Did (Mkdirp ''out'') True, Did (Mkdirp ''tmp/latex'') True,
       Did (ReadFile ''article/package.json'') False,
       Did (ReadFile ''builtin/article/package.json'') False])"
    by blast
next
  show "resolveTemplate (test_env never ''x'') ''article'' [] =
     (Inr \<lparr>pkg_template = Some ''template.tex'', pkg_files = None, pkg_dir = ''article''\<rparr>,
      [Did (ReadFile ''article/package.json'') True])"
    using resolveTemplate_two_tier [of "test_env never ''x''" "''article''" "[]" test_context
        default_options "document []", THEN conjunct1]
    by (simp add: test_env_def never_def manifest_text_def Let_def)
next
  show "resolveTemplate (test_env primary_missing ''x'') ''article'' [] =
     (Inr \<lparr>pkg_template = Some ''template.tex'', pkg_files = None,
           pkg_dir = ''builtin/article''\<rparr>,
      [Did (ReadFile ''article/package.json'') False,
       Did (ReadFile ''builtin/article/package.json'') True])"
    using resolveTemplate_two_tier [of "test_env primary_missing ''x''" "''article''" "[]"
        test_context default_options "document []", THEN conjunct1]
    by (simp add: test_env_def primary_missing_def manifest_text_def Let_def)
qed

lemma set_block_fields [simp]:
  "author (set_block d k v) = author d"
  "author_first (set_block d k v) = author_first d"
  "author_rest (set_block d k v) = author_rest d"
  "author_names (set_block d k v) = author_names d"
  by (simp_all add: set_block_def)

lemma extract_all_author:
  "extract_all cs tex d = Inr d' \<Longrightarrow>
     author d' = author d \<and> author_first d' = author_first d \<and>
     author_rest d' = author_rest d \<and> author_names d' = author_names d"
  by (induction cs arbitrary: d) (auto split: sum.splits option.splits)

lemma acknowledgments_set_block:
  "acknowledgments (set_block d k v) = (if k = ''acknowledgments'' then Some v else acknowledgments d)"
  by (simp add: set_block_def)

lemma get_block_acknowledgments [simp]: "get_block d ''acknowledgments'' = acknowledgments d"
  by (simp add: get_block_def)

lemma extractNode_acknowledgments:
  "name c = ''acknowledgments'' \<Longrightarrow>
     extractNode c tex = Inr (Some (''acknowledgments'', Some (extractContent ''acknowledgments'' c tex)))"
  by (simp add: extractNode_def)

lemma extractNode_other:
  assumes "name c \<noteq> ''acknowledgments''" "name c = ''latex:preamble'' \<longrightarrow> children c \<noteq> []"
  shows "extractNode c tex = Inr None \<or>
         (\<exists>k v. extractNode c tex = Inr (Some (k, v)) \<and> k \<noteq> ''acknowledgments'')"
  using assms by (auto simp: extractNode_def split: list.splits)

lemma extract_all_acknowledgments:
  assumes "\<forall>c\<in>set cs. name c = ''latex:preamble'' \<longrightarrow> children c \<noteq> []"
  shows "\<exists>d'. extract_all cs tex d = Inr d' \<and>
           acknowledgments d' =
             (if filter (\<lambda>c. name c = ''acknowledgments'') cs = [] then acknowledgments d
              else Some ((case acknowledgments d of None \<Rightarrow> [] | Some s \<Rightarrow> s) @
                     concat (map (\<lambda>c. extractContent ''acknowledgments'' c tex)
                               (filter (\<lambda>c. name c = ''acknowledgments'') cs))))"
  using assms
proof (induction cs arbitrary: d)
  case Nil
  then show ?case by simp
next
  case (Cons c cs)
  have rest: "\<forall>c\<in>set cs. name c = ''latex:preamble'' \<longrightarrow> children c \<noteq> []"
    using Cons.prems by simp
  show ?case
  proof (cases "name c = ''acknowledgments''")
    case True
    let ?old = "case acknowledgments d of None \<Rightarrow> [] | Some s \<Rightarrow> s"
    let ?d1 = "set_block d ''acknowledgments''
                 (appended (acknowledgments d) (Some (extractContent ''acknowledgments'' c tex)))"
    have step: "extract_all (c # cs) tex d = extract_all cs tex ?d1"
      using True by (simp add: extractNode_acknowledgments)
    have d1: "acknowledgments ?d1 = Some (?old @ extractContent ''acknowledgments'' c tex)"
      by (simp add: acknowledgments_set_block appended_def truthy_def split: option.splits)
    from Cons.IH [OF rest, of ?d1] obtain d' where
      "extract_all cs tex ?d1 = Inr d'"
      "acknowledgments d' =
         (if filter (\<lambda>c. name c = ''acknowledgments'') cs = [] then acknowledgments ?d1
          else Some ((case acknowledgments ?d1 of None \<Rightarrow> [] | Some s \<Rightarrow> s) @
                 concat (map (\<lambda>c. extractContent ''acknowledgments'' c tex)
                           (filter (\<lambda>c. name c = ''acknowledgments'') cs))))"
      by blast
    then show ?thesis
      unfolding step using d1 True by auto
  next
    case False
    have pre: "name c = ''latex:preamble'' \<longrightarrow> children c \<noteq> []"
      using Cons.prems by simp
    from extractNode_other [OF False pre, of tex]
    show ?thesis
    proof
      assume "extractNode c tex = Inr None"
      then have st: "extract_all (c # cs) tex d = extract_all cs tex d" by simp
      show ?thesis
        unfolding st using Cons.IH [OF rest, of d] False by auto
    next
      assume "\<exists>k v. extractNode c tex = Inr (Some (k, v)) \<and> k \<noteq> ''acknowledgments''"
      then obtain k v where kv: "extractNode c tex = Inr (Some (k, v))" "k \<noteq> ''acknowledgments''"
        by blast
      let ?d1 = "set_block d k (appended (get_block d k) v)"
      have st: "extract_all (c # cs) tex d = extract_all cs tex ?d1"
        using kv by simp
      have "acknowledgments ?d1 = acknowledgments d"
        using kv(2) by (simp add: acknowledgments_set_block)
      then show ?thesis
        unfolding st using Cons.IH [OF rest, of ?d1] False by auto
    qed
  qed
qed

lemma marshal_fresh [simp]:
  "acknowledgments (marshal E tex ast ctx opts) = None"
  by (simp add: marshal_def Let_def)

text \<open>
  C6. Take a tree whose top-level children hold two acknowledgments nodes, \<open>a\<close> before
  \<open>b\<close>, and whose preamble nodes all have a first child (so that the scan of the top-level
  children does not throw). Then the scan returns, and the \<^verbatim>\<open>acknowledgments\<close> block of the
  template data is the content of \<open>a\<close> followed by the content of \<open>b\<close>, where the content
  of a node is the spacing command configured for \<^verbatim>\<open>acknowledgments\<close>, then the trimmed
  fragment of the node, then its label in the category \<^verbatim>\<open>fig\<close>.
\<close>

theorem acknowledgments_concatenated:
  assumes "\<forall>c\<in>set (getChildren ast). name c = ''latex:preamble'' \<longrightarrow> children c \<noteq> []"
    and "filter (\<lambda>c. name c = ''acknowledgments'') (getChildren ast) = [a, b]"
  shows "\<exists>d. extract_all (getChildren ast) tex (marshal E tex ast ctx opts) = Inr d \<and>
           acknowledgments d =
             Some (extractContent ''acknowledgments'' a tex @ extractContent ''acknowledgments'' b tex) \<and>
           extractContent ''acknowledgments'' a tex =
             tex_vspace tex ''acknowledgments'' @ trim (tex_fragment tex a) @ tex_label tex a ''fig'' \<and>
           extractContent ''acknowledgments'' b tex =
             tex_vspace tex ''acknowledgments'' @ trim (tex_fragment tex b) @ tex_label tex b ''fig''"
  using extract_all_acknowledgments [OF assms(1), of tex "marshal E tex ast ctx opts"] assms(2)
  by (auto simp: extractContent_def)

theorem acknowledgments_concatenated_witness:
  "\<exists>d. extract_all (getChildren (document [thanks '' A '', text_node ''body'', thanks ''B'']))
          spaced
          (marshal (test_env never ''x'') spaced
             (document [thanks '' A '', text_node ''body'', thanks ''B'']) test_context
             default_options) = Inr d \<and>
       acknowledgments d = Some ''+A+B''"
proof -
  let ?ast = "document [thanks '' A '', text_node ''body'', thanks ''B'']"
  have pre: "\<forall>c\<in>set (getChildren ?ast). name c = ''latex:preamble'' \<longrightarrow> children c \<noteq> []"
    by (simp add: getChildren_def document_def thanks_def text_node_def)
  have two: "filter (\<lambda>c. name c = ''acknowledgments'') (getChildren ?ast) = [thanks '' A '', thanks ''B'']"
    by (simp add: getChildren_def document_def thanks_def text_node_def)
  have a: "extractContent ''acknowledgments'' (thanks '' A '') spaced = ''+A''"
    by (simp add: extractContent_def thanks_def text_node_def spaced_def plain_format_def
        getPropertyValue_def trim_def js_space_def)
  have b: "extractContent ''acknowledgments'' (thanks ''B'') spaced = ''+B''"
    by (simp add: extractContent_def thanks_def text_node_def spaced_def plain_format_def
        getPropertyValue_def trim_def js_space_def)
  from acknowledgments_concatenated [OF pre two, of spaced "test_env never ''x''" test_context default_options]
  show ?thesis
    unfolding a b by auto
qed

text \<open>
  C9. When the metadata has no \<^verbatim>\<open>author\<close> field, the author list of the template data is
  the single author named \<^verbatim>\<open>Unknown Author\<close>; \<^verbatim>\<open>author_first\<close> is that author,
  \<^verbatim>\<open>author_rest\<close> is empty and \<^verbatim>\<open>author_names\<close> is \<^verbatim>\<open>Unknown Author\<close>. The special
  sections added afterwards leave the four fields as they are.
\<close>

theorem unknown_author_default:
  assumes "meta_author (metadata ctx) = None"
  shows "author (marshal E tex ast ctx opts) =
           [\<lparr>author_name = ''Unknown Author'', affiliation = None\<rparr>] \<and>
         author_first (marshal E tex ast ctx opts) =
           Some \<lparr>author_name = ''Unknown Author'', affiliation = None\<rparr> \<and>
         author_rest (marshal E tex ast ctx opts) = [] \<and>
         author_names (marshal E tex ast ctx opts) = ''Unknown Author'' \<and>
         (\<forall>cs d. extract_all cs tex (marshal E tex ast ctx opts) = Inr d \<longrightarrow>
            author d = [\<lparr>author_name = ''Unknown Author'', affiliation = None\<rparr>] \<and>
            author_first d = Some \<lparr>author_name = ''Unknown Author'', affiliation = None\<rparr> \<and>
            author_rest d = [] \<and>
            author_names d = ''Unknown Author'')"
proof -
  have m: "author (marshal E tex ast ctx opts) =
           [\<lparr>author_name = ''Unknown Author'', affiliation = None\<rparr>]"
    "author_first (marshal E tex ast ctx opts) =
           Some \<lparr>author_name = ''Unknown Author'', affiliation = None\<rparr>"
    "author_rest (marshal E tex ast ctx opts) = []"
    "author_names (marshal E tex ast ctx opts) = ''Unknown Author''"
    using assms by (simp_all add: marshal_def unknown_author_def Let_def)
  show ?thesis
    using m extract_all_author [of _ tex "marshal E tex ast ctx opts"] by auto
qed

theorem unknown_author_default_witness:
  "author (marshal (test_env never ''x'') spaced (document []) test_context default_options) =
     [\<lparr>author_name = ''Unknown Author'', affiliation = None\<rparr>] \<and>
   author_names (marshal (test_env never ''x'') spaced (document []) test_context default_options) =
     ''Unknown Author''"
proof -
  have "meta_author (metadata test_context) = None"
    by (simp add: test_context_def)
  from unknown_author_default [OF this, of "test_env never ''x''" spaced "document []" default_options]
  show ?thesis by simp
qed

lemma compile_writes_shape:
  "writes (snd (compile E ast ctx opts)) =
     (case fst (prepare E ast ctx opts []) of
        Inl e \<Rightarrow> []
      | Inr p \<Rightarrow> source_write E ctx opts (p_source p) @ bib_write E ctx opts (p_bibtext p))"
  by (simp add: compile_writes emit_writes)

text \<open>
  C8. When the citation bundle is absent or its bibliography entries are absent or empty,
  the \<^verbatim>\<open>bibtex\<close> field of the template data is absent, no bibliography text is prepared,
  and the whole run asks \<^verbatim>\<open>writeFile\<close> for at most one file, the \<^verbatim>\<open>.tex\<close> source in the
  working directory: no bibliography file is written.
\<close>

theorem no_bibliography_without_entries:
  assumes "bibtex_entries ctx = []"
  shows "bibtex (marshal E tex ast ctx opts) = None \<and>
         (\<forall>p tr. prepare E ast ctx opts [] = (Inr p, tr) \<longrightarrow>
            bibtex (p_data p) = None \<and> p_bibtext p = None) \<and>
         (writes (snd (compile E ast ctx opts)) = [] \<or>
          (\<exists>source. writes (snd (compile E ast ctx opts)) =
             [(path_join E (opt_latexDir E ctx opts) (articleName E ctx @ ''.tex''), source)]))"
proof (intro conjI allI impI)
  have no: "\<not> has_bibtex ctx"
    using assms by (simp add: has_bibtex_entries)
  show m: "bibtex (marshal E tex ast ctx opts) = None" for tex ast
    using no by (simp add: marshal_def Let_def)
  fix p tr
  assume prep: "prepare E ast ctx opts [] = (Inr p, tr)"
  from prepare_Inr [OF prep] obtain ast' pm where
    "extract_all (getChildren ast') (make_format E ctx opts pm)
       (marshal E (make_format E ctx opts pm) ast' ctx opts) = Inr (p_data p)"
    and bt: "p_bibtext p = (if has_bibtex ctx
              then Some (tex_string (make_format E ctx opts pm)
                           (join (bibtex_entries ctx) [CHR 0x0A, CHR 0x0A]))
              else None)"
    by blast
  then show "bibtex (p_data p) = None"
    using extract_all_bibtex m by metis
  show "p_bibtext p = None"
    using bt no by simp
next
  have no: "\<not> has_bibtex ctx"
    using assms by (simp add: has_bibtex_entries)
  show "writes (snd (compile E ast ctx opts)) = [] \<or>
          (\<exists>source. writes (snd (compile E ast ctx opts)) =
             [(path_join E (opt_latexDir E ctx opts) (articleName E ctx @ ''.tex''), source)])"
  proof (cases "prepare E ast ctx opts []")
    case (Pair r tr)
    show ?thesis
    proof (cases r)
      case (Inl e)
      with Pair show ?thesis by (simp add: compile_writes_shape)
    next
      case (Inr p)
      with Pair have "p_bibtext p = None"
        using prepare_Inr [of E ast ctx opts "[]" p tr] no by auto
      with Pair Inr show ?thesis
        by (simp add: compile_writes_shape source_write_def bib_write_def)
    qed
  qed
qed

theorem no_bibliography_without_entries_witness:
  "bibtex (marshal (test_env never ''x'') spaced (document []) empty_bibliography default_options) = None \<and>
   writes (snd (compile (test_env never ''x'') (document []) empty_bibliography default_options)) =
     [(''tmp/latex/paper.tex'', ''x'')]"
proof -
  have none: "bibtex_entries empty_bibliography = []"
    by (simp add: bibtex_entries_def empty_bibliography_def)
  have run: "writes (snd (compile (test_env never ''x'') (document []) empty_bibliography default_options)) =
     [(''tmp/latex/paper.tex'', ''x'')]"
    by (simp add: run_defs empty_bibliography_def)
  from no_bibliography_without_entries [OF none, of "test_env never ''x''" spaced "document []" default_options]
    run
  show ?thesis by simp
qed

text \<open>
  C10. For every path, \<^verbatim>\<open>writeFile\<close> with falsy data (absent, or the empty string) issues
  no write and returns \<^verbatim>\<open>null\<close>. Hence a run whose rendered source is the empty string
  writes no \<^verbatim>\<open>.tex\<close> file: the only write of the whole run is that of the bibliography,
  when there is one and it is not empty.
\<close>

theorem writeFile_skips_falsy:
  "(\<not> truthy d \<longrightarrow> writeFile E path d tr = (None, tr)) \<and>
   (\<forall>p tr1. prepare E ast ctx opts [] = (Inr p, tr1) \<and> p_source p = [] \<longrightarrow>
      writes (snd (compile E ast ctx opts)) =
        (case p_bibtext p of
           None \<Rightarrow> []
         | Some b \<Rightarrow>
             if b \<noteq> []
             then [(path_join E (opt_latexDir E ctx opts) (articleName E ctx @ ''.bib''), b)]
             else []))"
proof (intro conjI allI impI)
  assume "\<not> truthy d"
  then show "writeFile E path d tr = (None, tr)"
    by (simp add: writeFile_def)
next
  fix p tr1
  assume "prepare E ast ctx opts [] = (Inr p, tr1) \<and> p_source p = []"
  then have "fst (prepare E ast ctx opts []) = Inr p" and "source_write E ctx opts (p_source p) = []"
    by (simp_all add: source_write_def)
  then show "writes (snd (compile E ast ctx opts)) =
        (case p_bibtext p of
           None \<Rightarrow> []
         | Some b \<Rightarrow>
             if b \<noteq> []
             then [(path_join E (opt_latexDir E ctx opts) (articleName E ctx @ ''.bib''), b)]
             else [])"
    by (simp add: compile_writes_shape bib_write_def)
qed

theorem writeFile_skips_falsy_witness:
  "writeFile (test_env never ''x'') ''tmp/latex/paper.tex'' (Some []) [] = (None, []) \<and>
   writeFile (test_env never ''x'') ''tmp/latex/paper.tex'' None [] = (None, []) \<and>
   writes (snd (compile (test_env never []) (document []) test_context default_options)) = []"
proof -
  let ?E = "test_env never []"
  have f1: "\<not> truthy (Some [])" and f2: "\<not> truthy None"
    by (simp_all add: truthy_def)
  have "\<exists>p. prepare ?E (document []) test_context default_options [] =
          (Inr p, [Did (Mkdirp ''out'') True, Did (Mkdirp ''tmp/latex'') True,
                   Did (ReadFile ''article/package.json'') True,
                   Did (ReadFile ''article/template.tex'') True]) \<and>
          p_source p = [] \<and> p_bibtext p = None"
    by (simp add: run_defs)
  then obtain p where prep: "prepare ?E (document []) test_context default_options [] =
          (Inr p, [Did (Mkdirp ''out'') True, Did (Mkdirp ''tmp/latex'') True,
                   Did (ReadFile ''article/package.json'') True,
                   Did (ReadFile ''article/template.tex'') True])"
    and p: "p_source p = []" "p_bibtext p = None"
    by blast
  from writeFile_skips_falsy [of "Some []" "test_env never ''x''" "''tmp/latex/paper.tex''" "[]"
      "document []" test_context default_options] f1
  have w1: "writeFile (test_env never ''x'') ''tmp/latex/paper.tex'' (Some []) [] = (None, [])"
    by blast
  from writeFile_skips_falsy [of None "test_env never ''x''" "''tmp/latex/paper.tex''" "[]"
      "document []" test_context default_options] f2
  have w2: "writeFile (test_env never ''x'') ''tmp/latex/paper.tex'' None [] = (None, [])"
    by blast
  from writeFile_skips_falsy [of None ?E "''p''" "[]" "document []" test_context default_options]
    prep p
  have "writes (snd (compile ?E (document []) test_context default_options)) = []"
    by auto
  with w1 w2 show ?thesis by simp
qed

end
